theory Spec2Isabelle
  imports Complex_Main
begin

section \<open>Bookstore backend: start-up, validators and the cache-aside handlers\<close>

text \<open>
  A shallow embedding of \<^verbatim>\<open>src/backend/server.js\<close>. Every definition names the
  source function it embeds. Effects are explicit: the process state, the cache and the
  store are values that a function takes and returns; an exception is the left summand
  of a sum type.
\<close>

subsection \<open>Start-up: \<^verbatim>\<open>initDatabase\<close>, \<^verbatim>\<open>initRedis\<close>, \<^verbatim>\<open>startServer\<close>\<close>

text \<open>
  What one call of \<^verbatim>\<open>initDatabase\<close> meets in its environment:
  \<^verbatim>\<open>mysql.createPool\<close> throws, or it returns a pool whose
  \<^verbatim>\<open>getConnection\<close> rejects, or the connection is obtained.
  \<^verbatim>\<open>createPool\<close> only builds the pool object; it opens no connection.
\<close>

datatype attempt = CreatePoolThrows | GetConnectionRejects | Connects

text \<open>
  The process state that start-up touches: the global \<^verbatim>\<open>pool\<close> (is it assigned),
  the number of \<^verbatim>\<open>initDatabase\<close> calls made, the milliseconds spent in
  \<^verbatim>\<open>setTimeout\<close>, and whether the Redis client is open.
\<close>

record proc =
  pool_assigned :: bool
  attempts :: nat
  slept_ms :: nat
  redis_open :: bool

definition proc0 :: proc where
  "proc0 = \<lparr>pool_assigned = False, attempts = 0, slept_ms = 0, redis_open = False\<rparr>"

text \<open>
  \<^verbatim>\<open>initDatabase\<close>: the assignment \<^verbatim>\<open>pool = mysql.createPool(dbConfig)\<close> is the
  first statement of the \<^verbatim>\<open>try\<close> block, so it has happened whenever
  \<^verbatim>\<open>getConnection\<close> is reached; the \<^verbatim>\<open>catch\<close> block returns false and
  leaves \<^verbatim>\<open>pool\<close> as it is.
\<close>

fun initDatabase :: "attempt \<Rightarrow> proc \<Rightarrow> bool \<times> proc" where
  "initDatabase CreatePoolThrows p = (False, p\<lparr>attempts := Suc (attempts p)\<rparr>)"
| "initDatabase GetConnectionRejects p =
     (False, p\<lparr>pool_assigned := True, attempts := Suc (attempts p)\<rparr>)"
| "initDatabase Connects p =
     (True, p\<lparr>pool_assigned := True, attempts := Suc (attempts p)\<rparr>)"

text \<open>
  \<^verbatim>\<open>initRedis\<close> catches every failure of \<^verbatim>\<open>connect\<close>; the argument says whether
  the connection succeeds.
\<close>

definition initRedis :: "bool \<Rightarrow> proc \<Rightarrow> bool \<times> proc" where
  "initRedis ok p = (ok, p\<lparr>redis_open := ok\<rparr>)"

text \<open>
  The loop of \<^verbatim>\<open>startServer\<close>, by recursion on \<^verbatim>\<open>retries\<close>:
  \<^verbatim>\<open>while (retries > 0) { connected = await initDatabase(); if (connected) break;
  await sleep(5000); retries--; }\<close>. The environment \<open>env\<close> gives the outcome of the
  \<open>k\<close>-th call of \<^verbatim>\<open>initDatabase\<close>, counted from 0.
\<close>

fun retry_loop :: "(nat \<Rightarrow> attempt) \<Rightarrow> nat \<Rightarrow> proc \<Rightarrow> proc" where
  "retry_loop env 0 p = p"
| "retry_loop env (Suc retries) p =
     (case initDatabase (env (attempts p)) p of
        (True, p') \<Rightarrow> p'
      | (False, p') \<Rightarrow> retry_loop env retries (p'\<lparr>slept_ms := slept_ms p' + 5000\<rparr>))"

text \<open>
  How \<^verbatim>\<open>startServer\<close> ends: \<^verbatim>\<open>process.exit(1)\<close>, or
  \<^verbatim>\<open>app.listen(PORT, '0.0.0.0', ...)\<close> has been called.
\<close>

datatype startup = Exited nat proc | Listening proc

definition startServer :: "(nat \<Rightarrow> attempt) \<Rightarrow> bool \<Rightarrow> startup" where
  "startServer env redis_ok =
     (let p = retry_loop env 5 proc0 in
      if \<not> pool_assigned p then Exited 1 p
      else Listening (snd (initRedis redis_ok p)))"

subsection \<open>JavaScript strings and the regular expressions of \<^verbatim>\<open>validateISBN\<close>\<close>

text \<open>
  A JavaScript string is a sequence of UTF-16 code units; a code unit is modelled by its
  number. \<open>str\<close> embeds a literal.
\<close>

type_synonym jsstring = "int list"

definition str :: "string \<Rightarrow> jsstring" where
  "str s = map of_char s"

text \<open>\<^verbatim>\<open>\d\<close> without the unicode flag: the ten ASCII digits.\<close>

definition is_digit :: "int \<Rightarrow> bool" where
  "is_digit c = (48 \<le> c \<and> c \<le> 57)"

text \<open>
  \<^verbatim>\<open>\s\<close>: the white space and line terminator code units of ECMAScript: TAB, LF, VT,
  FF, CR, SPACE, NO-BREAK SPACE, U+1680, U+2000 to U+200A, U+2028, U+2029, U+202F,
  U+205F, U+3000 and U+FEFF. The same set is skipped by \<^verbatim>\<open>parseFloat\<close> and
  \<^verbatim>\<open>parseInt\<close> at the start of their input.
\<close>

definition is_space :: "int \<Rightarrow> bool" where
  "is_space c =
     (c \<in> set [9, 10, 11, 12, 13, 32, 160, 5760, 8232, 8233, 8239, 8287, 12288, 65279]
      \<or> (8192 \<le> c \<and> c \<le> 8202))"

text \<open>
  The fragment of regular expressions that the two patterns and the character class of
  \<^verbatim>\<open>validateISBN\<close> use: \<^verbatim>\<open>\d\<close>, \<^verbatim>\<open>\s\<close>, a literal character, a class
  \<^verbatim>\<open>[...]\<close>, sequence, alternative \<^verbatim>\<open>|\<close> and the counted repetition
  \<^verbatim>\<open>{n}\<close> (\<open>rep\<close>).
\<close>

datatype atom = Digit | Space | Ch char

fun atom_matches :: "atom \<Rightarrow> int \<Rightarrow> bool" where
  "atom_matches Digit c = is_digit c"
| "atom_matches Space c = is_space c"
| "atom_matches (Ch x) c = (c = of_char x)"

definition class_matches :: "atom list \<Rightarrow> int \<Rightarrow> bool" where
  "class_matches as c = list_ex (\<lambda>a. atom_matches a c) as"

datatype regex = Eps | Atom atom | Class "atom list" | Seq regex regex | Alt regex regex

primrec rep :: "nat \<Rightarrow> regex \<Rightarrow> regex" where
  "rep 0 r = Eps"
| "rep (Suc n) r = Seq r (rep n r)"

text \<open>
  Backtracking matching: \<open>rests r s\<close> lists what is left of \<open>s\<close> after each way of
  matching \<open>r\<close> at its start, in the order a backtracking matcher tries them.
\<close>

fun rests :: "regex \<Rightarrow> jsstring \<Rightarrow> jsstring list" where
  "rests Eps s = [s]"
| "rests (Atom a) [] = []"
| "rests (Atom a) (c # cs) = (if atom_matches a c then [cs] else [])"
| "rests (Class as) [] = []"
| "rests (Class as) (c # cs) = (if class_matches as c then [cs] else [])"
| "rests (Seq r1 r2) s = concat (map (rests r2) (rests r1 s))"
| "rests (Alt r1 r2) s = rests r1 s @ rests r2 s"

text \<open>
  \<^verbatim>\<open>/^(?:r)$/.test(s)\<close>: without the multiline flag the anchors are the two ends of
  the input, so the pattern has to match all of \<open>s\<close>.
\<close>

definition regex_test :: "regex \<Rightarrow> jsstring \<Rightarrow> bool" where
  "regex_test r s = ([] \<in> set (rests r s))"

text \<open>\<^verbatim>\<open>s.replace(/[...]/g, '')\<close>: every code unit in the class is removed.\<close>

definition replace_all :: "atom list \<Rightarrow> jsstring \<Rightarrow> jsstring" where
  "replace_all as s = filter (\<lambda>c. \<not> class_matches as c) s"

text \<open>\<^verbatim>\<open>const isbn10Regex = /^(?:\d{9}X|\d{10})$/;\<close>\<close>

definition isbn10Regex :: regex where
  "isbn10Regex = Alt (Seq (rep 9 (Atom Digit)) (Atom (Ch CHR ''X''))) (rep 10 (Atom Digit))"

text \<open>\<^verbatim>\<open>const isbn13Regex = /^(?:97[89]\d{10})$/;\<close>\<close>

definition isbn13Regex :: regex where
  "isbn13Regex =
     Seq (Atom (Ch CHR ''9'')) (Seq (Atom (Ch CHR ''7''))
       (Seq (Class [Ch CHR ''8'', Ch CHR ''9'']) (rep 10 (Atom Digit))))"

subsection \<open>JavaScript values, \<^verbatim>\<open>ToString\<close> and numbers\<close>

text \<open>
  What a handler can throw or catch: a \<^verbatim>\<open>TypeError\<close> of the language, or the error of
  a rejected query, named by its \<^verbatim>\<open>code\<close>.
\<close>

datatype js_error = TypeError | ER_DUP_ENTRY | ER_BAD_NULL_ERROR | ECONNREFUSED

text \<open>
  The values that \<^verbatim>\<open>express.json()\<close> puts into \<^verbatim>\<open>req.body\<close>, and
  \<^verbatim>\<open>undefined\<close> for a property that is absent. An object is the list of its own
  properties. A number is represented by the text that \<^verbatim>\<open>Number::toString\<close> gives for
  it (\<^verbatim>\<open>10000.01\<close>, \<^verbatim>\<open>1e+21\<close>, \<^verbatim>\<open>0\<close> for both zeros): the code below reads a number
  through \<^verbatim>\<open>parseFloat\<close> and \<^verbatim>\<open>parseInt\<close>, which start with \<^verbatim>\<open>ToString\<close>, and
  through its truth value, which that text determines.
\<close>

datatype jsval = JUndefined | JNull | JBool bool | JNum jsstring | JStr jsstring
  | JArr "jsval list" | JObj "(jsstring \<times> jsval) list"

text \<open>
  \<^verbatim>\<open>ToString\<close> of ECMAScript. An array is joined with commas, \<^verbatim>\<open>undefined\<close> and
  \<^verbatim>\<open>null\<close> elements giving the empty string. An object goes through
  \<^verbatim>\<open>OrdinaryToPrimitive\<close>: an own property \<^verbatim>\<open>toString\<close> parsed from JSON is not
  callable, and \<^verbatim>\<open>valueOf\<close> (own: not callable; inherited: returns the object) gives
  no primitive either, so the conversion throws a \<^verbatim>\<open>TypeError\<close>; without such a
  property \<^verbatim>\<open>Object.prototype.toString\<close> answers \<^verbatim>\<open>[object Object]\<close>.
\<close>

fun ToString :: "jsval \<Rightarrow> js_error + jsstring"
  and join_elements :: "jsval list \<Rightarrow> js_error + jsstring" where
  "ToString JUndefined = Inr (str ''undefined'')"
| "ToString JNull = Inr (str ''null'')"
| "ToString (JBool b) = Inr (if b then str ''true'' else str ''false'')"
| "ToString (JNum t) = Inr t"
| "ToString (JStr s) = Inr s"
| "ToString (JArr xs) = join_elements xs"
| "ToString (JObj kvs) =
     (if str ''toString'' \<in> set (map fst kvs) then Inl TypeError
      else Inr (str ''[object Object]''))"
| "join_elements [] = Inr []"
| "join_elements (x # xs) =
     (case (if x = JUndefined \<or> x = JNull then Inr [] else ToString x) of
        Inl e \<Rightarrow> Inl e
      | Inr s \<Rightarrow> (if xs = [] then Inr s
                  else case join_elements xs of
                         Inl e \<Rightarrow> Inl e
                       | Inr t \<Rightarrow> Inr (s @ str '','' @ t)))"

text \<open>\<^verbatim>\<open>ToBoolean\<close>, as used by \<^verbatim>\<open>!x\<close>, \<^verbatim>\<open>x && y\<close> and \<^verbatim>\<open>x || y\<close>.\<close>

definition truthy :: "jsval \<Rightarrow> bool" where
  "truthy v =
     (case v of
        JUndefined \<Rightarrow> False
      | JNull \<Rightarrow> False
      | JBool b \<Rightarrow> b
      | JNum t \<Rightarrow> t \<noteq> str ''0'' \<and> t \<noteq> str ''NaN''
      | JStr s \<Rightarrow> s \<noteq> []
      | JArr xs \<Rightarrow> True
      | JObj kvs \<Rightarrow> True)"

text \<open>\<^verbatim>\<open>a || b\<close>\<close>

definition js_or :: "jsval \<Rightarrow> jsval \<Rightarrow> jsval" where
  "js_or a b = (if truthy a then a else b)"

text \<open>
  The result of \<^verbatim>\<open>parseFloat\<close> and \<^verbatim>\<open>parseInt\<close>: a double, given by its exact
  value. The two zeros are not told apart (no comparison below does).
\<close>

datatype jsnum = NaN | PosInf | NegInf | Fin rat

text \<open>
  Rounding a rational to the nearest double, ties to even (IEEE 754 binary64: 53
  significant bits, least exponent -1022 for normal numbers, overflow to infinity).
  \<open>bits n\<close> is the number of binary digits of \<open>n\<close>, \<open>floor_log2 a\<close> the exponent
  \<open>e\<close> with \<open>2\<^sup>e \<le> a < 2\<^sup>e\<^sup>+\<^sup>1\<close> for \<open>a > 0\<close>.
\<close>

function bits :: "int \<Rightarrow> int" where
  "bits n = (if n \<le> 0 then 0 else 1 + bits (n div 2))"
  by pat_completeness auto
termination
  by (relation "measure nat") auto

declare bits.simps [simp del]

definition floor_log2 :: "rat \<Rightarrow> int" where
  "floor_log2 a = (if 1 \<le> a then bits \<lfloor>a\<rfloor> - 1 else - bits (\<lceil>1 / a\<rceil> - 1))"

definition round_half_even :: "rat \<Rightarrow> int" where
  "round_half_even x =
     (let f = \<lfloor>x\<rfloor>; d = x - of_int f
      in if d < 1 / 2 then f else if 1 / 2 < d then f + 1 else if even f then f else f + 1)"

definition round_double :: "rat \<Rightarrow> jsnum" where
  "round_double v =
     (if v = 0 then Fin 0
      else let a = \<bar>v\<bar>;
               e = max (floor_log2 a) (- 1022);
               q = 2 powi (e - 52);
               m = round_half_even (a / q)
           in if 1023 < e \<or> (e = 1023 \<and> 2 ^ 53 \<le> m)
              then (if v < 0 then NegInf else PosInf)
              else Fin (if v < 0 then - (of_int m * q) else of_int m * q))"

text \<open>The value of a string of decimal digits, and an optional sign at the start.\<close>

definition digits_val :: "jsstring \<Rightarrow> int" where
  "digits_val ds = foldl (\<lambda>a c. 10 * a + (c - 48)) 0 ds"

definition strip_sign :: "jsstring \<Rightarrow> bool \<times> jsstring" where
  "strip_sign s =
     (case s of
        [] \<Rightarrow> (False, [])
      | c # cs \<Rightarrow> if c = of_char CHR ''-'' then (True, cs)
                  else if c = of_char CHR ''+'' then (False, cs)
                  else (False, s))"

text \<open>
  The longest prefix that is a \<^verbatim>\<open>StrUnsignedDecimalLiteral\<close> other than
  \<^verbatim>\<open>Infinity\<close>: digits, an optional fraction, an optional exponent; at least one digit
  before the exponent. \<open>None\<close> when there is no such prefix.
\<close>

definition exponent_part :: "jsstring \<Rightarrow> int" where
  "exponent_part r =
     (case r of
        [] \<Rightarrow> 0
      | c # cs \<Rightarrow>
          if c = of_char CHR ''e'' \<or> c = of_char CHR ''E''
          then (let (neg, ds0) = strip_sign cs; ds = takeWhile is_digit ds0
                in if ds = [] then 0
                   else if neg then - digits_val ds else digits_val ds)
          else 0)"

definition unsigned_decimal :: "jsstring \<Rightarrow> rat option" where
  "unsigned_decimal s =
     (let ip = takeWhile is_digit s;
          r1 = dropWhile is_digit s;
          has_dot = (case r1 of [] \<Rightarrow> False | c # cs \<Rightarrow> c = of_char CHR ''.'');
          fp = (if has_dot then takeWhile is_digit (tl r1) else []);
          r2 = (if has_dot then dropWhile is_digit (tl r1) else r1)
      in if ip = [] \<and> fp = [] then None
         else Some (of_int (digits_val (ip @ fp))
                    * 10 powi (exponent_part r2 - int (length fp))))"

text \<open>
  \<^verbatim>\<open>parseFloat(v)\<close>: \<^verbatim>\<open>ToString\<close>, skip leading white space, take the longest
  prefix that is a \<^verbatim>\<open>StrDecimalLiteral\<close>, \<^verbatim>\<open>NaN\<close> when there is none.
\<close>

definition parseFloat :: "jsval \<Rightarrow> js_error + jsnum" where
  "parseFloat v =
     (case ToString v of
        Inl e \<Rightarrow> Inl e
      | Inr inputString \<Rightarrow>
          Inr (let (neg, u) = strip_sign (dropWhile is_space inputString)
               in if take 8 u = str ''Infinity'' then (if neg then NegInf else PosInf)
                  else case unsigned_decimal u of
                         None \<Rightarrow> NaN
                       | Some q \<Rightarrow> round_double (if neg then - q else q)))"

text \<open>
  \<^verbatim>\<open>parseInt(v)\<close> with no radix: \<^verbatim>\<open>ToString\<close>, skip leading white space, a sign,
  radix 16 after \<^verbatim>\<open>0x\<close> or \<^verbatim>\<open>0X\<close> and 10 otherwise, then the longest prefix of
  digits of that radix; \<^verbatim>\<open>NaN\<close> when it is empty. (Past 20 significant digits
  ECMAScript lets an implementation approximate the value; the model rounds the exact
  one.)
\<close>

definition is_hex_digit :: "int \<Rightarrow> bool" where
  "is_hex_digit c = (is_digit c \<or> (97 \<le> c \<and> c \<le> 102) \<or> (65 \<le> c \<and> c \<le> 70))"

definition hex_val :: "int \<Rightarrow> int" where
  "hex_val c = (if is_digit c then c - 48 else if 97 \<le> c then c - 87 else c - 55)"

definition hex_digits_val :: "jsstring \<Rightarrow> int" where
  "hex_digits_val ds = foldl (\<lambda>a c. 16 * a + hex_val c) 0 ds"

definition parseInt :: "jsval \<Rightarrow> js_error + jsnum" where
  "parseInt v =
     (case ToString v of
        Inl e \<Rightarrow> Inl e
      | Inr inputString \<Rightarrow>
          Inr (let (neg, S) = strip_sign (dropWhile is_space inputString);
                   hex = (take 2 S = str ''0x'' \<or> take 2 S = str ''0X'');
                   Z = (if hex then takeWhile is_hex_digit (drop 2 S) else takeWhile is_digit S);
                   mathInt = (if hex then hex_digits_val Z else digits_val Z)
               in if Z = [] then NaN
                  else round_double (of_int (if neg then - mathInt else mathInt))))"

text \<open>\<^verbatim>\<open>isNaN(n)\<close>, \<^verbatim>\<open>n >= y\<close> and \<^verbatim>\<open>n <= y\<close> for a double \<open>n\<close>.\<close>

definition isNaN :: "jsnum \<Rightarrow> bool" where
  "isNaN n = (n = NaN)"

fun js_ge :: "jsnum \<Rightarrow> rat \<Rightarrow> bool" where
  "js_ge (Fin x) y = (y \<le> x)"
| "js_ge PosInf y = True"
| "js_ge NegInf y = False"
| "js_ge NaN y = False"

fun js_le :: "jsnum \<Rightarrow> rat \<Rightarrow> bool" where
  "js_le (Fin x) y = (x \<le> y)"
| "js_le PosInf y = False"
| "js_le NegInf y = True"
| "js_le NaN y = False"

subsection \<open>The validators\<close>

text \<open>
  \<^verbatim>\<open>validateISBN(isbn)\<close> calls \<^verbatim>\<open>isbn.replace(/[-\s]/g, '')\<close>. Only a string has a
  callable \<^verbatim>\<open>replace\<close>: for a number, a boolean, an array or an object parsed from
  JSON the property is undefined or not a function, and for \<^verbatim>\<open>null\<close> and
  \<^verbatim>\<open>undefined\<close> the property access itself fails; each is a \<^verbatim>\<open>TypeError\<close>.
\<close>

fun validateISBN :: "jsval \<Rightarrow> js_error + bool" where
  "validateISBN (JStr isbn) =
     Inr (let cleanISBN = replace_all [Ch CHR ''-'', Space] isbn
          in regex_test isbn10Regex cleanISBN \<or> regex_test isbn13Regex cleanISBN)"
| "validateISBN v = Inl TypeError"

definition validatePrice :: "jsval \<Rightarrow> js_error + bool" where
  "validatePrice price =
     (case parseFloat price of
        Inl e \<Rightarrow> Inl e
      | Inr numPrice \<Rightarrow>
          Inr (\<not> isNaN numPrice \<and> js_ge numPrice 0 \<and> js_le numPrice 10000))"

definition validateStock :: "jsval \<Rightarrow> js_error + bool" where
  "validateStock stock =
     (case parseInt stock of
        Inl e \<Rightarrow> Inl e
      | Inr numStock \<Rightarrow>
          Inr (\<not> isNaN numStock \<and> js_ge numStock 0 \<and> js_le numStock 100000))"

subsection \<open>The store behind \<^verbatim>\<open>pool.query\<close>\<close>

text \<open>
  The MySQL server and the schema of the \<^verbatim>\<open>books\<close> table are not part of
  \<^verbatim>\<open>src/backend/server.js\<close>; the five statements that the handlers send are. The
  definitions of this subsection give those statements a meaning, from section 4.1 of
  the specification (the Store Gateway) and the schema that \<^verbatim>\<open>src/docs/API.md\<close>
  documents.
\<close>

text \<open>
  Modelled from the spec: a row of the \<^verbatim>\<open>books\<close> table, the Book of section 3,
  with the columns \<^verbatim>\<open>id INT PRIMARY KEY AUTO_INCREMENT\<close>, \<^verbatim>\<open>title\<close>,
  \<^verbatim>\<open>author\<close> and \<^verbatim>\<open>isbn\<close> (\<^verbatim>\<open>NOT NULL\<close>, \<^verbatim>\<open>isbn UNIQUE\<close>),
  \<^verbatim>\<open>price DECIMAL(10,2) DEFAULT 0.00\<close> and \<^verbatim>\<open>stock INT DEFAULT 0\<close> (both
  nullable). A row keeps, for each column, the value that was bound to the statement's
  parameter; the server's conversion of that value to the column type and the two
  timestamps are left out.
\<close>

record book =
  book_id :: int
  title :: jsval
  author :: jsval
  isbn :: jsval
  price :: jsval
  stock :: jsval

text \<open>
  Modelled from the spec: the store. The table, newest row first (the order of
  \<^verbatim>\<open>ORDER BY created_at DESC\<close>), the next \<^verbatim>\<open>AUTO_INCREMENT\<close> value, and
  whether a query can be carried out at all (a connection can be obtained from the
  pool and the server answers; otherwise every query fails with a connection error).
\<close>

record store =
  books :: "book list"
  next_id :: int
  reachable :: bool

text \<open>
  Modelled from the spec: a parameter that is \<^verbatim>\<open>undefined\<close> or \<^verbatim>\<open>null\<close> is
  sent as SQL \<^verbatim>\<open>NULL\<close> (the driver's escaping of \<^verbatim>\<open>pool.query\<close> parameters).
\<close>

definition sql_null :: "jsval \<Rightarrow> bool" where
  "sql_null v = (v = JUndefined \<or> v = JNull)"

text \<open>
  Modelled from the spec: \<^verbatim>\<open>WHERE id = ?\<close> with the text of \<^verbatim>\<open>req.params.id\<close>.
  The server compares a string with an integer column as floating-point numbers; the
  number of a string is that of its longest numeric prefix after leading blanks, and 0
  when there is none.
\<close>

definition sql_number :: "jsstring \<Rightarrow> jsnum" where
  "sql_number s =
     (let (neg, u) = strip_sign (dropWhile (\<lambda>c. c \<in> set [9, 10, 11, 12, 13, 32]) s)
      in case unsigned_decimal u of
           None \<Rightarrow> Fin 0
         | Some q \<Rightarrow> round_double (if neg then - q else q))"

text \<open>
  Modelled from the spec: the row has the id that the parameter names, both read as
  doubles.
\<close>

definition id_matches :: "jsstring \<Rightarrow> book \<Rightarrow> bool" where
  "id_matches s b = (sql_number s = round_double (of_int (book_id b)))"

text \<open>
  Modelled from the spec: \<^verbatim>\<open>fetchAll\<close>,
  \<^verbatim>\<open>SELECT * FROM books ORDER BY created_at DESC\<close>: every row, newest first; a
  connection error when the store cannot be reached.
\<close>

definition query_select_all :: "store \<Rightarrow> js_error + book list" where
  "query_select_all d = (if \<not> reachable d then Inl ECONNREFUSED else Inr (books d))"

text \<open>
  Modelled from the spec: \<^verbatim>\<open>fetchById\<close>, \<^verbatim>\<open>SELECT * FROM books WHERE id = ?\<close>:
  the rows whose id the parameter matches.
\<close>

definition query_select_by_id :: "store \<Rightarrow> jsstring \<Rightarrow> js_error + book list" where
  "query_select_by_id d s =
     (if \<not> reachable d then Inl ECONNREFUSED else Inr (filter (id_matches s) (books d)))"

text \<open>
  Modelled from the spec: \<^verbatim>\<open>insert\<close>,
  \<^verbatim>\<open>INSERT INTO books (title, author, isbn, price, stock) VALUES (?, ?, ?, ?, ?)\<close>:
  fails on a \<^verbatim>\<open>NULL\<close> in a \<^verbatim>\<open>NOT NULL\<close> column, fails with
  \<^verbatim>\<open>ER_DUP_ENTRY\<close> when the isbn is already present, and otherwise adds the row and
  returns the assigned id as \<^verbatim>\<open>insertId\<close>.
\<close>

definition query_insert ::
  "store \<Rightarrow> jsval \<Rightarrow> jsval \<Rightarrow> jsval \<Rightarrow> jsval \<Rightarrow> jsval \<Rightarrow> js_error + (int \<times> store)" where
  "query_insert d t a i p s =
     (if \<not> reachable d then Inl ECONNREFUSED
      else if sql_null t \<or> sql_null a \<or> sql_null i then Inl ER_BAD_NULL_ERROR
      else if list_ex (\<lambda>b. isbn b = i) (books d) then Inl ER_DUP_ENTRY
      else Inr (next_id d,
                d\<lparr>books := \<lparr>book_id = next_id d, title = t, author = a, isbn = i,
                               price = p, stock = s\<rparr> # books d,
                  next_id := next_id d + 1\<rparr>))"

text \<open>
  Modelled from the spec: \<^verbatim>\<open>update\<close>,
  \<^verbatim>\<open>UPDATE books SET title = ?, author = ?, isbn = ?, price = ?, stock = ?,
  updated_at = NOW() WHERE id = ?\<close>: no row matches, then nothing happens and
  \<^verbatim>\<open>affectedRows\<close> is 0; otherwise the constraints are checked as for an insert
  (the isbn against the other rows) and every column of the matching row is
  overwritten.
\<close>

definition query_update ::
  "store \<Rightarrow> jsval \<Rightarrow> jsval \<Rightarrow> jsval \<Rightarrow> jsval \<Rightarrow> jsval \<Rightarrow> jsstring
     \<Rightarrow> js_error + (nat \<times> store)" where
  "query_update d t a i p s ident =
     (if \<not> reachable d then Inl ECONNREFUSED
      else if \<not> list_ex (id_matches ident) (books d) then Inr (0, d)
      else if sql_null t \<or> sql_null a \<or> sql_null i then Inl ER_BAD_NULL_ERROR
      else if list_ex (\<lambda>b. \<not> id_matches ident b \<and> isbn b = i) (books d) then Inl ER_DUP_ENTRY
      else Inr (length (filter (id_matches ident) (books d)),
                d\<lparr>books := map (\<lambda>b. if id_matches ident b
                                       then b\<lparr>title := t, author := a, isbn := i,
                                              price := p, stock := s\<rparr>
                                       else b) (books d)\<rparr>))"

text \<open>
  Modelled from the spec: \<^verbatim>\<open>delete\<close>, \<^verbatim>\<open>DELETE FROM books WHERE id = ?\<close>:
  removes the matching rows and reports how many there were.
\<close>

definition query_delete :: "store \<Rightarrow> jsstring \<Rightarrow> js_error + (nat \<times> store)" where
  "query_delete d ident =
     (if \<not> reachable d then Inl ECONNREFUSED
      else Inr (length (filter (id_matches ident) (books d)),
                d\<lparr>books := filter (\<lambda>b. \<not> id_matches ident b) (books d)\<rparr>))"

subsection \<open>Cache helper functions\<close>

text \<open>
  What is cached: \<^verbatim>\<open>JSON.parse(JSON.stringify(data))\<close> for one row or for the list
  of rows.
\<close>

datatype cached = CRow book | CRows "book list"

text \<open>
  The Redis side: \<^verbatim>\<open>redisClient?.isOpen\<close>; whether a command sent now is rejected
  (the \<^verbatim>\<open>catch\<close> blocks of the three helpers); and the keys held by the server, each
  with the time to live it was set with.
\<close>

record cache =
  isOpen :: bool
  failing :: bool
  entries :: "(jsstring \<times> int \<times> cached) list"

text \<open>\<^verbatim>\<open>const CACHE_TTL = parseInt(process.env.CACHE_TTL) || 300;\<close> with the variable unset.\<close>

definition CACHE_TTL :: int where
  "CACHE_TTL = 300"

definition getFromCache :: "jsstring \<Rightarrow> cache \<Rightarrow> cached option" where
  "getFromCache key c =
     (if \<not> isOpen c then None
      else if failing c then None
      else map_option snd (map_of (entries c) key))"

definition setToCache :: "jsstring \<Rightarrow> cached \<Rightarrow> cache \<Rightarrow> cache" where
  "setToCache key data c =
     (if \<not> isOpen c then c
      else if failing c then c
      else c\<lparr>entries := (key, CACHE_TTL, data) # filter (\<lambda>e. fst e \<noteq> key) (entries c)\<rparr>)"

text \<open>
  \<^verbatim>\<open>invalidateCache(pattern = 'books:*')\<close> is only called without an argument:
  \<^verbatim>\<open>keys('books:*')\<close> are the keys that start with \<^verbatim>\<open>books:\<close>.
\<close>

definition glob_books :: "jsstring \<Rightarrow> bool" where
  "glob_books key = (take 6 key = str ''books:'')"

definition invalidateCache :: "cache \<Rightarrow> cache" where
  "invalidateCache c =
     (if \<not> isOpen c then c
      else if failing c then c
      else let keys = filter glob_books (map fst (entries c));
               c1 = (if keys \<noteq> []
                     then c\<lparr>entries := filter (\<lambda>e. fst e \<notin> set keys) (entries c)\<rparr>
                     else c)
           in c1\<lparr>entries := filter (\<lambda>e. fst e \<noteq> str ''books:all'') (entries c1)\<rparr>)"

subsection \<open>The five handlers\<close>

text \<open>
  A response is its status and its JSON body. \<open>BData\<close> is \<^verbatim>\<open>res.json(rows)\<close>,
  \<^verbatim>\<open>res.json(rows[0])\<close> or \<^verbatim>\<open>res.json(cached)\<close>; \<open>BFromCache c\<close> is
  \<^verbatim>\<open>{ ...cached, fromCache: true }\<close>; \<open>BWritten\<close> is the object with
  \<^verbatim>\<open>id, title, author, isbn, price, stock, message\<close> that a create or an update
  answers (a property whose value is \<^verbatim>\<open>undefined\<close> is left out by
  \<^verbatim>\<open>JSON.stringify\<close>); \<open>BError\<close> and \<open>BMessage\<close> are \<^verbatim>\<open>{ error: ... }\<close> and
  \<^verbatim>\<open>{ message: ... }\<close>. Logging has no effect on the response, the store or the
  cache and is left out.
\<close>

datatype body =
    BError string
  | BData cached
  | BFromCache cached
  | BWritten jsnum jsval jsval jsval jsval jsval string
  | BMessage string

record response =
  status :: int
  body :: body

definition json :: "int \<Rightarrow> body \<Rightarrow> response" where
  "json st b = \<lparr>status = st, body = b\<rparr>"

record world =
  db :: store
  redis :: cache

text \<open>\<^verbatim>\<open>const { title, ... } = req.body\<close>: an absent property is \<^verbatim>\<open>undefined\<close>.\<close>

definition field :: "(jsstring \<times> jsval) list \<Rightarrow> string \<Rightarrow> jsval" where
  "field obj k = (case map_of obj (str k) of None \<Rightarrow> JUndefined | Some v \<Rightarrow> v)"

text \<open>\<^verbatim>\<open>app.get('/api/books', ...)\<close>\<close>

definition get_books :: "world \<Rightarrow> response \<times> world" where
  "get_books w =
     (case getFromCache (str ''books:all'') (redis w) of
        Some cached \<Rightarrow> (json 200 (BData cached), w)
      | None \<Rightarrow>
          (case query_select_all (db w) of
             Inl error \<Rightarrow> (json 500 (BError ''Failed to fetch books''), w)
           | Inr rows \<Rightarrow>
               (json 200 (BData (CRows rows)),
                w\<lparr>redis := setToCache (str ''books:all'') (CRows rows) (redis w)\<rparr>)))"

text \<open>\<^verbatim>\<open>app.get('/api/books/:id', ...)\<close>; \<open>ident\<close> is \<^verbatim>\<open>req.params.id\<close>.\<close>

definition get_book :: "jsstring \<Rightarrow> world \<Rightarrow> response \<times> world" where
  "get_book ident w =
     (let cacheKey = str ''books:'' @ ident in
      case getFromCache cacheKey (redis w) of
        Some cached \<Rightarrow> (json 200 (BFromCache cached), w)
      | None \<Rightarrow>
          (case query_select_by_id (db w) ident of
             Inl error \<Rightarrow> (json 500 (BError ''Failed to fetch book''), w)
           | Inr [] \<Rightarrow> (json 404 (BError ''Book not found''), w)
           | Inr (row # rest) \<Rightarrow>
               (json 200 (BData (CRow row)),
                w\<lparr>redis := setToCache cacheKey (CRow row) (redis w)\<rparr>)))"

text \<open>
  \<^verbatim>\<open>app.post('/api/books', ...)\<close>. \<open>caught\<close> is the \<^verbatim>\<open>catch\<close> block; whatever is
  thrown inside the \<^verbatim>\<open>try\<close> block is thrown before the store or the cache has
  changed.
\<close>

definition post_books :: "(jsstring \<times> jsval) list \<Rightarrow> world \<Rightarrow> response \<times> world" where
  "post_books req_body w =
     (let title = field req_body ''title''; author = field req_body ''author'';
          isbn = field req_body ''isbn''; price = field req_body ''price'';
          stock = field req_body ''stock'';
          caught = (\<lambda>error. if error = ER_DUP_ENTRY
                             then (json 409 (BError ''Book with this ISBN already exists''), w)
                             else (json 500 (BError ''Failed to create book''), w))
      in if \<not> truthy title \<or> \<not> truthy author \<or> \<not> truthy isbn
         then (json 400 (BError ''Title, author, and ISBN are required''), w)
         else
          case validateISBN isbn of
            Inl error \<Rightarrow> caught error
          | Inr False \<Rightarrow>
              (json 400 (BError ''Invalid ISBN format. Must be ISBN-10 or ISBN-13''), w)
          | Inr True \<Rightarrow>
          (case (if price \<noteq> JUndefined then validatePrice price else Inr True) of
            Inl error \<Rightarrow> caught error
          | Inr False \<Rightarrow>
              (json 400 (BError ''Invalid price. Must be between 0 and 10000''), w)
          | Inr True \<Rightarrow>
          (case (if stock \<noteq> JUndefined then validateStock stock else Inr True) of
            Inl error \<Rightarrow> caught error
          | Inr False \<Rightarrow>
              (json 400 (BError ''Invalid stock. Must be between 0 and 100000''), w)
          | Inr True \<Rightarrow>
          (case query_insert (db w) title author isbn
                  (js_or price (JNum (str ''0''))) (js_or stock (JNum (str ''0''))) of
            Inl error \<Rightarrow> caught error
          | Inr (insertId, d') \<Rightarrow>
              (json 201 (BWritten (Fin (of_int insertId)) title author isbn price stock
                           ''Book created successfully''),
               \<lparr>db = d', redis = invalidateCache (redis w)\<rparr>)))))"

text \<open>\<^verbatim>\<open>app.put('/api/books/:id', ...)\<close>\<close>

definition put_book ::
  "jsstring \<Rightarrow> (jsstring \<times> jsval) list \<Rightarrow> world \<Rightarrow> response \<times> world" where
  "put_book ident req_body w =
     (let title = field req_body ''title''; author = field req_body ''author'';
          isbn = field req_body ''isbn''; price = field req_body ''price'';
          stock = field req_body ''stock'';
          caught = (\<lambda>error :: js_error. \<lambda>w'. (json 500 (BError ''Failed to update book''), w'))
      in case (if truthy isbn then validateISBN isbn else Inr True) of
            Inl error \<Rightarrow> caught error w
          | Inr False \<Rightarrow>
              (json 400 (BError ''Invalid ISBN format. Must be ISBN-10 or ISBN-13''), w)
          | Inr True \<Rightarrow>
          (case (if price \<noteq> JUndefined then validatePrice price else Inr True) of
            Inl error \<Rightarrow> caught error w
          | Inr False \<Rightarrow>
              (json 400 (BError ''Invalid price. Must be between 0 and 10000''), w)
          | Inr True \<Rightarrow>
          (case (if stock \<noteq> JUndefined then validateStock stock else Inr True) of
            Inl error \<Rightarrow> caught error w
          | Inr False \<Rightarrow>
              (json 400 (BError ''Invalid stock. Must be between 0 and 100000''), w)
          | Inr True \<Rightarrow>
          (case query_update (db w) title author isbn price stock ident of
            Inl error \<Rightarrow> caught error w
          | Inr (affectedRows, d') \<Rightarrow>
              if affectedRows = 0
              then (json 404 (BError ''Book not found''), \<lparr>db = d', redis = redis w\<rparr>)
              else let w' = \<lparr>db = d', redis = invalidateCache (redis w)\<rparr> in
                   (case parseInt (JStr ident) of
                      Inl error \<Rightarrow> caught error w'
                    | Inr n \<Rightarrow>
                        (json 200 (BWritten n title author isbn price stock
                                     ''Book updated successfully''), w'))))))"

text \<open>\<^verbatim>\<open>app.delete('/api/books/:id', ...)\<close>\<close>

definition delete_book :: "jsstring \<Rightarrow> world \<Rightarrow> response \<times> world" where
  "delete_book ident w =
     (case query_delete (db w) ident of
        Inl error \<Rightarrow> (json 500 (BError ''Failed to delete book''), w)
      | Inr (affectedRows, d') \<Rightarrow>
          if affectedRows = 0
          then (json 404 (BError ''Book not found''), \<lparr>db = d', redis = redis w\<rparr>)
          else (json 200 (BMessage ''Book deleted successfully''),
                \<lparr>db = d', redis = invalidateCache (redis w)\<rparr>))"

subsection \<open>The specification's notions\<close>

text \<open>
  The two accepted shapes, in the words of section 4.4: ten characters, digits, of which
  the last may be \<^verbatim>\<open>X\<close>; thirteen digits that begin with \<^verbatim>\<open>978\<close> or
  \<^verbatim>\<open>979\<close>.
\<close>

definition isbn10_shape :: "jsstring \<Rightarrow> bool" where
  "isbn10_shape s =
     (length s = 10 \<and> list_all is_digit (take 9 s)
      \<and> (is_digit (s ! 9) \<or> s ! 9 = of_char CHR ''X''))"

definition isbn13_shape :: "jsstring \<Rightarrow> bool" where
  "isbn13_shape s =
     (length s = 13 \<and> list_all is_digit s
      \<and> (take 3 s = str ''978'' \<or> take 3 s = str ''979''))"

text \<open>
  Stripping as the specification words it (hyphens and spaces), and stripping hyphens
  and every white space character.
\<close>

definition strip_hyphens_spaces :: "jsstring \<Rightarrow> jsstring" where
  "strip_hyphens_spaces s =
     filter (\<lambda>c. c \<noteq> of_char CHR ''-'' \<and> c \<noteq> of_char CHR '' '') s"

definition strip_hyphens_whitespace :: "jsstring \<Rightarrow> jsstring" where
  "strip_hyphens_whitespace s = filter (\<lambda>c. c \<noteq> of_char CHR ''-'' \<and> \<not> is_space c) s"

subsection \<open>Numerals at the start of a text\<close>

text \<open>
  The notions in which the texts accepted by \<^verbatim>\<open>validatePrice\<close> and
  \<^verbatim>\<open>validateStock\<close> are described. They are written without reference to the
  scanners above: the digits and their values are read off a table, and the value
  of a numeral is the sum of its digits weighted by their places.
\<close>

definition digit_table :: "(int \<times> int) list" where
  "digit_table = zip (str ''0123456789abcdef'') [0..15] @ zip (str ''ABCDEF'') [10..15]"

text \<open>\<open>is_digit_of b c\<close>: the code unit \<open>c\<close> is a digit of radix \<open>b\<close>.\<close>

definition is_digit_of :: "int \<Rightarrow> int \<Rightarrow> bool" where
  "is_digit_of b c = (case map_of digit_table c of None \<Rightarrow> False | Some d \<Rightarrow> d < b)"

definition digit_value :: "int \<Rightarrow> int" where
  "digit_value c = (case map_of digit_table c of None \<Rightarrow> 0 | Some d \<Rightarrow> d)"

text \<open>
  The integer that the digits \<open>ds\<close> denote in radix \<open>b\<close>: the digit \<open>i\<close> places from
  the right counts \<open>b\<^sup>i\<close> times its value.
\<close>

definition place_value :: "int \<Rightarrow> jsstring \<Rightarrow> int" where
  "place_value b ds =
     sum_list (map (\<lambda>(i, c). digit_value c * b ^ i) (enumerate 0 (rev ds)))"




















subsection \<open>Notions used to state the properties of the handlers\<close>

text \<open>
  The checks that a create and an update make before they send their statement, as a
  function of the request body alone: something is thrown, the request is rejected
  with a message, or the statement is sent.
\<close>

datatype verdict = Thrown | Rejected string | Passed

definition post_validation :: "(jsstring \<times> jsval) list \<Rightarrow> verdict" where
  "post_validation b =
     (if \<not> truthy (field b ''title'') \<or> \<not> truthy (field b ''author'')
         \<or> \<not> truthy (field b ''isbn'')
      then Rejected ''Title, author, and ISBN are required''
      else case validateISBN (field b ''isbn'') of
        Inl e \<Rightarrow> Thrown
      | Inr False \<Rightarrow> Rejected ''Invalid ISBN format. Must be ISBN-10 or ISBN-13''
      | Inr True \<Rightarrow>
      (case (if field b ''price'' \<noteq> JUndefined then validatePrice (field b ''price'')
             else Inr True) of
        Inl e \<Rightarrow> Thrown
      | Inr False \<Rightarrow> Rejected ''Invalid price. Must be between 0 and 10000''
      | Inr True \<Rightarrow>
      (case (if field b ''stock'' \<noteq> JUndefined then validateStock (field b ''stock'')
             else Inr True) of
        Inl e \<Rightarrow> Thrown
      | Inr False \<Rightarrow> Rejected ''Invalid stock. Must be between 0 and 100000''
      | Inr True \<Rightarrow> Passed)))"

definition put_validation :: "(jsstring \<times> jsval) list \<Rightarrow> verdict" where
  "put_validation b =
     (case (if truthy (field b ''isbn'') then validateISBN (field b ''isbn'') else Inr True) of
        Inl e \<Rightarrow> Thrown
      | Inr False \<Rightarrow> Rejected ''Invalid ISBN format. Must be ISBN-10 or ISBN-13''
      | Inr True \<Rightarrow>
      (case (if field b ''price'' \<noteq> JUndefined then validatePrice (field b ''price'')
             else Inr True) of
        Inl e \<Rightarrow> Thrown
      | Inr False \<Rightarrow> Rejected ''Invalid price. Must be between 0 and 10000''
      | Inr True \<Rightarrow>
      (case (if field b ''stock'' \<noteq> JUndefined then validateStock (field b ''stock'')
             else Inr True) of
        Inl e \<Rightarrow> Thrown
      | Inr False \<Rightarrow> Rejected ''Invalid stock. Must be between 0 and 100000''
      | Inr True \<Rightarrow> Passed)))"

text \<open>
  The statement a create sends and the one an update sends, with the parameters the
  handler binds.
\<close>

definition insert_of :: "(jsstring \<times> jsval) list \<Rightarrow> store \<Rightarrow> js_error + (int \<times> store)" where
  "insert_of b d =
     query_insert d (field b ''title'') (field b ''author'') (field b ''isbn'')
       (js_or (field b ''price'') (JNum (str ''0''))) (js_or (field b ''stock'') (JNum (str ''0'')))"

definition update_of ::
  "jsstring \<Rightarrow> (jsstring \<times> jsval) list \<Rightarrow> store \<Rightarrow> js_error + (nat \<times> store)" where
  "update_of ident b d =
     query_update d (field b ''title'') (field b ''author'') (field b ''isbn'')
       (field b ''price'') (field b ''stock'') ident"

text \<open>The number that \<^verbatim>\<open>parseInt\<close> returns for a string (it throws for none).\<close>

definition parseInt_of :: "jsstring \<Rightarrow> jsnum" where
  "parseInt_of s = (case parseInt (JStr s) of Inl e \<Rightarrow> NaN | Inr n \<Rightarrow> n)"

text \<open>
  The same state with the Cache Gateway disconnected; a response without the
  \<^verbatim>\<open>fromCache\<close> flag; and a cache whose entries agree with the store: what is under
  \<^verbatim>\<open>books:all\<close> is the list of all rows, and what is under \<^verbatim>\<open>books:\<close> followed
  by an id is the first row that the store returns for that id.
\<close>

definition disconnect :: "world \<Rightarrow> world" where
  "disconnect w = w\<lparr>redis := (redis w)\<lparr>isOpen := False\<rparr>\<rparr>"

definition without_fromCache :: "response \<Rightarrow> response" where
  "without_fromCache r =
     (case body r of BFromCache c \<Rightarrow> r\<lparr>body := BData c\<rparr> | _ \<Rightarrow> r)"

definition entry_agrees :: "store \<Rightarrow> jsstring \<times> int \<times> cached \<Rightarrow> bool" where
  "entry_agrees d e =
     (case e of (key, ttl, v) \<Rightarrow>
        if \<not> glob_books key then True
        else if drop 6 key = str ''all'' then v = CRows (books d)
        else (case filter (id_matches (drop 6 key)) (books d) of
                [] \<Rightarrow> False
              | row # rest \<Rightarrow> v = CRow row))"

definition coherent :: "store \<Rightarrow> cache \<Rightarrow> bool" where
  "coherent d c = list_all (entry_agrees d) (entries c)"

subsection \<open>Concrete states and requests\<close>

text \<open>
  States and requests at which the theorems below are instantiated: an empty store
  that can be reached, with a connected cache that holds nothing; and three request
  bodies.
\<close>

definition world0 :: world where
  "world0 = \<lparr>db = \<lparr>books = [], next_id = 1, reachable = True\<rparr>,
             redis = \<lparr>isOpen = True, failing = False, entries = []\<rparr>\<rparr>"

text \<open>\<^verbatim>\<open>{"title": "T", "author": "A", "isbn": "0451524935"}\<close>\<close>

definition body_T :: "(jsstring \<times> jsval) list" where
  "body_T = [(str ''title'', JStr (str ''T'')), (str ''author'', JStr (str ''A'')),
             (str ''isbn'', JStr (str ''0451524935''))]"

text \<open>\<^verbatim>\<open>{"title": "U", "author": "B", "isbn": "043942089X", "price": 12.5, "stock": 3}\<close>\<close>

definition body_U :: "(jsstring \<times> jsval) list" where
  "body_U = [(str ''title'', JStr (str ''U'')), (str ''author'', JStr (str ''B'')),
             (str ''isbn'', JStr (str ''043942089X'')), (str ''price'', JNum (str ''12.5'')),
             (str ''stock'', JNum (str ''3''))]"

text \<open>\<^verbatim>\<open>{"title": "V", "author": "C", "isbn": "9780451524935", "stock": 100000.9}\<close>\<close>

definition body_V :: "(jsstring \<times> jsval) list" where
  "body_V = [(str ''title'', JStr (str ''V'')), (str ''author'', JStr (str ''C'')),
             (str ''isbn'', JStr (str ''9780451524935'')), (str ''stock'', JNum (str ''100000.9''))]"

text \<open>\<^verbatim>\<open>{"title": "T", "author": "A", "isbn": 1234567890}\<close>\<close>

definition body_numeric_isbn :: "(jsstring \<times> jsval) list" where
  "body_numeric_isbn = [(str ''title'', JStr (str ''T'')), (str ''author'', JStr (str ''A'')),
                        (str ''isbn'', JNum (str ''1234567890''))]"

text \<open>
  The rows that creating \<open>body_T\<close> and then \<open>body_U\<close> in the empty store
  leaves, the states after one and after both creations, and the second state with
  the store out of reach.
\<close>

definition row_T :: book where
  "row_T = \<lparr>book_id = 1, title = JStr (str ''T''), author = JStr (str ''A''),
            isbn = JStr (str ''0451524935''), price = JNum (str ''0''), stock = JNum (str ''0'')\<rparr>"

definition row_U :: book where
  "row_U = \<lparr>book_id = 2, title = JStr (str ''U''), author = JStr (str ''B''),
            isbn = JStr (str ''043942089X''), price = JNum (str ''12.5''), stock = JNum (str ''3'')\<rparr>"

definition world1 :: world where
  "world1 = \<lparr>db = \<lparr>books = [row_T], next_id = 2, reachable = True\<rparr>,
             redis = \<lparr>isOpen = True, failing = False, entries = []\<rparr>\<rparr>"

definition world2 :: world where
  "world2 = \<lparr>db = \<lparr>books = [row_U, row_T], next_id = 3, reachable = True\<rparr>,
             redis = \<lparr>isOpen = True, failing = False, entries = []\<rparr>\<rparr>"

definition world2_down :: world where
  "world2_down = world2\<lparr>db := (db world2)\<lparr>reachable := False\<rparr>\<rparr>"

text \<open>
  The state with one book after a Read-all, and after a Read-one of id 1; then a delete
  of id 1 during a cache outage (every Redis command is rejected), and the state once
  the outage is over.
\<close>

definition world1_listed :: world where
  "world1_listed = snd (get_books world1)"

definition world1_read :: world where
  "world1_read = snd (get_book (str ''1'') world1)"

definition world1_outage :: world where
  "world1_outage = world1_read\<lparr>redis := (redis world1_read)\<lparr>failing := True\<rparr>\<rparr>"

definition world1_recovered :: world where
  "world1_recovered =
     (let w = snd (delete_book (str ''1'') world1_outage)
      in w\<lparr>redis := (redis w)\<lparr>failing := False\<rparr>\<rparr>)"

text \<open>The state after a Read-one of id 1, with the store out of reach.\<close>

definition world1_read_down :: world where
  "world1_read_down = world1_read\<lparr>db := (db world1_read)\<lparr>reachable := False\<rparr>\<rparr>"

subsection \<open>Properties of start-up\<close>

lemma five_unfold: "(5::nat) = Suc (Suc (Suc (Suc (Suc 0))))"
  by simp

lemma initDatabase_attempts: "attempts (snd (initDatabase a p)) = Suc (attempts p)"
  by (cases a) simp_all

lemma retry_loop_attempts_le: "attempts (retry_loop env n p) \<le> attempts p + n"
proof (induction n arbitrary: p)
  case 0
  show ?case by simp
next
  case (Suc n)
  obtain b p' where ip: "initDatabase (env (attempts p)) p = (b, p')"
    by (cases "initDatabase (env (attempts p)) p")
  have a: "attempts p' = Suc (attempts p)"
    using initDatabase_attempts [of "env (attempts p)" p] ip by simp
  show ?case
  proof (cases b)
    case True
    with ip a show ?thesis by simp
  next
    case False
    have "attempts (retry_loop env n (p'\<lparr>slept_ms := slept_ms p' + 5000\<rparr>))
            \<le> attempts (p'\<lparr>slept_ms := slept_ms p' + 5000\<rparr>) + n"
      by (rule Suc.IH)
    with False ip a show ?thesis by simp
  qed
qed

text \<open>
  Claim C2. The store is tried at most five times, with 5000 ms of sleep after each
  failed try. When every try fails because \<^verbatim>\<open>getConnection\<close> rejects (the store is
  unreachable), five tries are made and 25000 ms are slept, but \<^verbatim>\<open>pool\<close> was
  assigned by \<^verbatim>\<open>createPool\<close> before the failure, so the test \<^verbatim>\<open>!pool\<close> is false,
  \<^verbatim>\<open>process.exit(1)\<close> is not reached and \<^verbatim>\<open>app.listen\<close> is called: start-up does
  not abort.
\<close>

theorem startServer_unreachable_store_listens:
  "startServer (\<lambda>k. GetConnectionRejects) redis_ok =
     Listening \<lparr>pool_assigned = True, attempts = 5, slept_ms = 25000, redis_open = redis_ok\<rparr>"
  by (simp add: startServer_def proc0_def initRedis_def five_unfold)

text \<open>
  Start-up aborts exactly when \<^verbatim>\<open>createPool\<close> itself throws at each of the five
  tries, and it never makes more than five tries. Whether a connection was ever
  obtained does not decide.
\<close>

lemma startServer_attempts_le_5:
  "startServer env redis_ok = Listening p \<or> startServer env redis_ok = Exited c p
     \<Longrightarrow> attempts p \<le> 5"
  using retry_loop_attempts_le [of env 5 proc0]
  by (auto simp: startServer_def proc0_def initRedis_def Let_def split: if_splits)

lemma startServer_exits_when_createPool_throws:
  "startServer (\<lambda>k. CreatePoolThrows) redis_ok =
     Exited 1 \<lparr>pool_assigned = False, attempts = 5, slept_ms = 25000, redis_open = False\<rparr>"
  by (simp add: startServer_def proc0_def five_unfold)

lemma retry_loop_pool_kept: "pool_assigned p \<Longrightarrow> pool_assigned (retry_loop env n p)"
proof (induction n arbitrary: p)
  case 0
  then show ?case by simp
next
  case (Suc n)
  show ?case
  proof (cases "env (attempts p)")
    case CreatePoolThrows
    with Suc.prems Suc.IH [of "p\<lparr>attempts := Suc (attempts p), slept_ms := slept_ms p + 5000\<rparr>"]
    show ?thesis by simp
  next
    case GetConnectionRejects
    with Suc.IH [of "p\<lparr>pool_assigned := True, attempts := Suc (attempts p), slept_ms := slept_ms p + 5000\<rparr>"]
    show ?thesis by simp
  next
    case Connects
    then show ?thesis by simp
  qed
qed

lemma retry_loop_pool_assigned:
  "pool_assigned (retry_loop env n p) \<longleftrightarrow>
     pool_assigned p \<or> (\<exists>k. attempts p \<le> k \<and> k < attempts p + n \<and> env k \<noteq> CreatePoolThrows)"
proof (induction n arbitrary: p)
  case 0
  show ?case by auto
next
  case (Suc n)
  show ?case
  proof (cases "pool_assigned p")
    case True
    then show ?thesis using retry_loop_pool_kept by blast
  next
    case np: False
    show ?thesis
    proof (cases "env (attempts p)")
      case CreatePoolThrows
      let ?p = "p\<lparr>attempts := Suc (attempts p), slept_ms := slept_ms p + 5000\<rparr>"
      have "(\<exists>k. Suc (attempts p) \<le> k \<and> k < Suc (attempts p) + n \<and> env k \<noteq> CreatePoolThrows)
            \<longleftrightarrow> (\<exists>k. attempts p \<le> k \<and> k < attempts p + Suc n \<and> env k \<noteq> CreatePoolThrows)"
        using CreatePoolThrows by (metis Suc_leD Suc_leI add_Suc add_Suc_right le_neq_implies_less)
      with CreatePoolThrows np Suc.IH [of ?p] show ?thesis by simp
    next
      case GetConnectionRejects
      let ?p = "p\<lparr>pool_assigned := True, attempts := Suc (attempts p), slept_ms := slept_ms p + 5000\<rparr>"
      have "pool_assigned (retry_loop env n ?p)" by (rule retry_loop_pool_kept) simp
      moreover have "\<exists>k. attempts p \<le> k \<and> k < attempts p + Suc n \<and> env k \<noteq> CreatePoolThrows"
        using GetConnectionRejects by (intro exI [of _ "attempts p"]) simp
      ultimately show ?thesis using GetConnectionRejects by simp
    next
      case Connects
      moreover have "\<exists>k. attempts p \<le> k \<and> k < attempts p + Suc n \<and> env k \<noteq> CreatePoolThrows"
        using Connects by (intro exI [of _ "attempts p"]) simp
      ultimately show ?thesis by simp
    qed
  qed
qed

lemma startServer_exits_iff:
  "(\<exists>c p. startServer env redis_ok = Exited c p) \<longleftrightarrow> (\<forall>k<5. env k = CreatePoolThrows)"
  using retry_loop_pool_assigned [of env 5 proc0]
  by (auto simp: startServer_def Let_def proc0_def)

subsection \<open>Properties of the validators\<close>

lemma rests_rep_digit:
  "rests (rep n (Atom Digit)) s =
     (if n \<le> length s \<and> list_all is_digit (take n s) then [drop n s] else [])"
proof (induction n arbitrary: s)
  case 0
  show ?case by simp
next
  case (Suc n)
  show ?case
  proof (cases s)
    case Nil
    then show ?thesis by simp
  next
    case (Cons c cs)
    show ?thesis
    proof (cases "is_digit c")
      case True
      with Cons Suc.IH [of cs] show ?thesis by simp
    next
      case False
      with Cons show ?thesis by simp
    qed
  qed
qed

lemma drop_eq_single: "drop n s = [x] \<longleftrightarrow> length s = Suc n \<and> s ! n = x"
proof
  assume d: "drop n s = [x]"
  then have "length (drop n s) = 1" by simp
  then have l: "length s = Suc n" by simp
  then have "drop n s = [s ! n]"
    by (metis Cons_nth_drop_Suc drop_all le_refl lessI)
  with d l show "length s = Suc n \<and> s ! n = x" by simp
next
  assume "length s = Suc n \<and> s ! n = x"
  then show "drop n s = [x]"
    by (metis Cons_nth_drop_Suc drop_all le_refl lessI)
qed

lemma list_all_take_Suc:
  "n < length s \<Longrightarrow> list_all P (take (Suc n) s) = (list_all P (take n s) \<and> P (s ! n))"
  by (simp add: take_Suc_conv_app_nth)

lemma rests_digits_end:
  "([] \<in> set (rests (rep (Suc n) (Atom Digit)) t))
     = (length t = Suc n \<and> list_all is_digit (take n t) \<and> is_digit (t ! n))"
proof (cases "length t = Suc n")
  case True
  then have "n < length t" by simp
  from list_all_take_Suc [OF this, of is_digit] True show ?thesis
    by (simp add: rests_rep_digit del: rep.simps)
next
  case False
  then show ?thesis
    by (auto simp add: rests_rep_digit simp del: rep.simps)
qed

lemma rests_digits_then_char:
  "([] \<in> set (rests (Seq (rep n (Atom Digit)) (Atom (Ch x))) t))
     = (length t = Suc n \<and> list_all is_digit (take n t) \<and> t ! n = of_char x)"
proof (cases "n \<le> length t \<and> list_all is_digit (take n t)")
  case True
  then have "rests (Seq (rep n (Atom Digit)) (Atom (Ch x))) t = rests (Atom (Ch x)) (drop n t)"
    by (simp add: rests_rep_digit)
  also have "([] \<in> set (rests (Atom (Ch x)) (drop n t))) = (drop n t = [of_char x])"
    by (cases "drop n t") auto
  finally show ?thesis using True by (auto simp: drop_eq_single)
next
  case False
  then show ?thesis by (auto simp: rests_rep_digit)
qed

lemma isbn10Regex_test: "regex_test isbn10Regex t = isbn10_shape t"
proof -
  have "regex_test isbn10Regex t =
          ([] \<in> set (rests (Seq (rep 9 (Atom Digit)) (Atom (Ch CHR ''X''))) t)
           \<or> [] \<in> set (rests (rep (Suc 9) (Atom Digit)) t))"
    by (simp add: regex_test_def isbn10Regex_def del: rep.simps rests.simps(6))
  then show ?thesis
    unfolding rests_digits_end rests_digits_then_char isbn10_shape_def by auto
qed

lemma isbn13Regex_test: "regex_test isbn13Regex t = isbn13_shape t"
proof (cases t)
  case Nil
  then show ?thesis by (simp add: regex_test_def isbn13Regex_def isbn13_shape_def)
next
  case c1: (Cons a t1)
  show ?thesis
  proof (cases t1)
    case Nil
    with c1 show ?thesis by (simp add: regex_test_def isbn13Regex_def isbn13_shape_def)
  next
    case c2: (Cons b t2)
    show ?thesis
    proof (cases t2)
      case Nil
      with c1 c2 show ?thesis by (simp add: regex_test_def isbn13Regex_def isbn13_shape_def)
    next
      case c3: (Cons c t3)
      have d: "([] \<in> set (rests (rep 10 (Atom Digit)) t3))
                 = (length t3 = 10 \<and> list_all is_digit t3)"
        by (auto simp add: rests_rep_digit simp del: rep.simps)
      show ?thesis
        unfolding regex_test_def isbn13Regex_def isbn13_shape_def c1 c2 c3
        using d
        by (auto simp add: class_matches_def str_def is_digit_def simp del: rep.simps)
    qed
  qed
qed

lemma replace_all_hyphen_space:
  "replace_all [Ch CHR ''-'', Space] s = strip_hyphens_whitespace s"
  by (simp add: replace_all_def strip_hyphens_whitespace_def class_matches_def)

lemma validateISBN_string:
  "validateISBN (JStr s) =
     Inr (isbn10_shape (strip_hyphens_whitespace s) \<or> isbn13_shape (strip_hyphens_whitespace s))"
  by (simp add: replace_all_hyphen_space isbn10Regex_test isbn13Regex_test Let_def)

lemmas shape_eval = isbn10_shape_def isbn13_shape_def strip_hyphens_whitespace_def
  strip_hyphens_spaces_def str_def is_digit_def is_space_def

text \<open>
  Claim C5, as the code has it. After removing the hyphens and every white space
  character (the class \<^verbatim>\<open>\s\<close>, not only the space), \<^verbatim>\<open>validateISBN\<close> accepts a
  string exactly when what is left has the ISBN-10 shape (ten characters, digits, the
  last may be \<^verbatim>\<open>X\<close>) or the ISBN-13 shape (thirteen digits that begin with
  \<^verbatim>\<open>978\<close> or \<^verbatim>\<open>979\<close>). The five entries of the validation table hold.
\<close>

theorem validateISBN_accepts_iff_shape:
  "validateISBN (JStr s) =
     Inr (isbn10_shape (strip_hyphens_whitespace s) \<or> isbn13_shape (strip_hyphens_whitespace s))
   \<and> validateISBN (JStr (str ''0451524935'')) = Inr True
   \<and> validateISBN (JStr (str ''043942089X'')) = Inr True
   \<and> validateISBN (JStr (str ''9780451524935'')) = Inr True
   \<and> validateISBN (JStr (str ''1234'')) = Inr False
   \<and> validateISBN (JStr (str ''978045152493'')) = Inr False"
proof -
  have g: "validateISBN (JStr s) =
     Inr (isbn10_shape (strip_hyphens_whitespace s) \<or> isbn13_shape (strip_hyphens_whitespace s))"
    by (rule validateISBN_string)
  have e1: "validateISBN (JStr (str ''0451524935'')) = Inr True"
    unfolding validateISBN_string by (simp add: shape_eval)
  have e2: "validateISBN (JStr (str ''043942089X'')) = Inr True"
    unfolding validateISBN_string by (simp add: shape_eval)
  have e3: "validateISBN (JStr (str ''9780451524935'')) = Inr True"
    unfolding validateISBN_string by (simp add: shape_eval)
  have e4: "validateISBN (JStr (str ''1234'')) = Inr False"
    unfolding validateISBN_string by (simp add: shape_eval)
  have e5: "validateISBN (JStr (str ''978045152493'')) = Inr False"
    unfolding validateISBN_string by (simp add: shape_eval)
  from g e1 e2 e3 e4 e5 show ?thesis by blast
qed

text \<open>
  The claim as worded strips hyphens and spaces only. A string of ten digits followed
  by a TAB is accepted by \<^verbatim>\<open>validateISBN\<close>, although stripping its hyphens and
  spaces leaves eleven characters, which have neither shape.
\<close>

theorem validateISBN_strips_tab_counterexample:
  "validateISBN (JStr (str ''0451524935'' @ [9])) = Inr True
   \<and> \<not> (isbn10_shape (strip_hyphens_spaces (str ''0451524935'' @ [9]))
         \<or> isbn13_shape (strip_hyphens_spaces (str ''0451524935'' @ [9])))"
  unfolding validateISBN_string by (simp add: shape_eval)

text \<open>
  Claim C4. \<^verbatim>\<open>validateISBN\<close> throws for every value that is not a string, for
  instance the number \<^verbatim>\<open>1234567890\<close>, and a create request with that isbn is
  answered by the \<^verbatim>\<open>catch\<close> block with status 500 instead of a rejection with
  status 400. \<^verbatim>\<open>validatePrice\<close> and \<^verbatim>\<open>validateStock\<close> throw for an object with
  an own property \<^verbatim>\<open>toString\<close>.
\<close>

theorem validateISBN_throws_on_number:
  "validateISBN (JNum (str ''1234567890'')) = Inl TypeError
   \<and> fst (post_books body_numeric_isbn w) = json 500 (BError ''Failed to create book'')
   \<and> validatePrice (JObj [(str ''toString'', JNull)]) = Inl TypeError
   \<and> validateStock (JObj [(str ''toString'', JNull)]) = Inl TypeError"
  by (simp add: post_books_def body_numeric_isbn_def field_def truthy_def str_def
      validatePrice_def validateStock_def parseFloat_def parseInt_def)

theorem validateISBN_throws_on_number_witness:
  "validateISBN (JNum (str ''1234567890'')) = Inl TypeError
   \<and> fst (post_books body_numeric_isbn world0) = json 500 (BError ''Failed to create book'')
   \<and> validatePrice (JObj [(str ''toString'', JNull)]) = Inl TypeError
   \<and> validateStock (JObj [(str ''toString'', JNull)]) = Inl TypeError"
  by (rule validateISBN_throws_on_number)

lemma validateISBN_non_string: "\<forall>s. v \<noteq> JStr s \<Longrightarrow> validateISBN v = Inl TypeError"
  by (cases v) simp_all

lemma validators_return_on_strings:
  "(\<exists>b. validateISBN (JStr s) = Inr b) \<and> (\<exists>b. validatePrice (JStr s) = Inr b)
   \<and> (\<exists>b. validateStock (JStr s) = Inr b)"
  by (simp add: validatePrice_def validateStock_def parseFloat_def parseInt_def)

lemma validators_read_number_as_its_text:
  "validatePrice (JNum t) = validatePrice (JStr t) \<and> validateStock (JNum t) = validateStock (JStr t)"
  by (simp add: validatePrice_def validateStock_def parseFloat_def parseInt_def)

text \<open>
  \<^verbatim>\<open>parseInt\<close> returns an integer when it returns a finite number: rounding an
  integer to a double gives an integer.
\<close>

lemma round_half_even_of_int: "round_half_even (of_int j) = j"
  by (simp add: round_half_even_def)

lemma scaled_round_is_int:
  fixes a :: int and d :: int
  shows "\<exists>n::int. rat_of_int (round_half_even (of_int a / 2 powi d)) * 2 powi d = of_int n"
proof (cases "0 \<le> d")
  case True
  then have "(2::rat) powi d = of_int (2 ^ nat d)"
    by (simp add: power_int_def)
  then have "rat_of_int (round_half_even (of_int a / 2 powi d)) * 2 powi d
               = of_int (round_half_even (of_int a / 2 powi d) * 2 ^ nat d)"
    by simp
  then show ?thesis by blast
next
  case False
  then have q: "(2::rat) powi d = inverse (2 ^ nat (- d))"
    by (simp add: power_int_def power_one_over inverse_eq_divide)
  have "rat_of_int a / 2 powi d = of_int (a * 2 ^ nat (- d))"
    by (simp add: q field_simps)
  then have "round_half_even (of_int a / 2 powi d) = a * 2 ^ nat (- d)"
    by (simp only: round_half_even_of_int)
  then have "rat_of_int (round_half_even (of_int a / 2 powi d)) * 2 powi d = of_int a"
    by (simp add: q)
  then show ?thesis by blast
qed

lemma round_double_of_int:
  "round_double (of_int k) = Fin x \<Longrightarrow> \<exists>n::int. x = of_int n"
proof -
  assume r: "round_double (of_int k) = Fin x"
  show ?thesis
  proof (cases "k = 0")
    case True
    with r have "x = of_int 0" by (simp add: round_double_def)
    then show ?thesis by blast
  next
    case False
    define d where "d = max (floor_log2 \<bar>rat_of_int k\<bar>) (- 1022) - 52"
    from scaled_round_is_int [of "\<bar>k\<bar>" d] obtain n :: int
      where n: "rat_of_int (round_half_even (of_int \<bar>k\<bar> / 2 powi d)) * 2 powi d = of_int n"
      by blast
    from r False n have "x = of_int n \<or> x = of_int (- n)"
      by (auto simp: round_double_def Let_def d_def split: if_splits)
    then show ?thesis by blast
  qed
qed

lemma round_double_minus_of_int:
  "round_double (- of_int k) = Fin x \<Longrightarrow> \<exists>n::int. x = of_int n"
  using round_double_of_int [of "- k" x] by simp

lemma parseInt_integer:
  "parseInt v = Inr (Fin x) \<Longrightarrow> \<exists>n::int. x = of_int n"
  by (auto simp: parseInt_def Let_def split: sum.splits prod.splits if_splits
      dest: round_double_of_int round_double_minus_of_int)

subsection \<open>Rounding to a double\<close>





















subsection \<open>The scanners of \<^verbatim>\<open>parseFloat\<close> and \<^verbatim>\<open>parseInt\<close> read numerals\<close>

text \<open>The digits of the table are those of \<^verbatim>\<open>\\d\<close> and of radix 16, with the same values.\<close>

lemma digit_table_eval:
  "digit_table = [(48,0),(49,1),(50,2),(51,3),(52,4),(53,5),(54,6),(55,7),(56,8),(57,9),
     (97,10),(98,11),(99,12),(100,13),(101,14),(102,15),
     (65,10),(66,11),(67,12),(68,13),(69,14),(70,15)]"
  by code_simp






text \<open>The value that the scanners accumulate digit by digit is the value by places.\<close>

lemma place_sum_shift:
  "sum_list (map (\<lambda>(i, c). digit_value c * b ^ i) (enumerate (Suc n) xs))
     = b * sum_list (map (\<lambda>(i, c). digit_value c * b ^ i) (enumerate n xs))"
  by (induct xs arbitrary: n) (simp_all add: algebra_simps)

lemma place_value_Nil: "place_value b [] = 0"
  by (simp add: place_value_def)

lemma place_value_snoc: "place_value b (ds @ [c]) = b * place_value b ds + digit_value c"
  by (simp add: place_value_def place_sum_shift)






lemma place_value_nonneg: "0 \<le> b \<Longrightarrow> list_all (is_digit_of b) ds \<Longrightarrow> 0 \<le> place_value b ds"
proof (induct ds rule: rev_induct)
  case Nil
  show ?case by (simp add: place_value_Nil)
next
  case (snoc c ds)
  have "0 \<le> digit_value c"
    unfolding digit_value_def digit_table_eval by simp
  with snoc show ?case by (simp add: place_value_snoc)
qed









































subsection \<open>Properties of the handlers\<close>

text \<open>What is thrown before a statement is sent is a \<^verbatim>\<open>TypeError\<close>.\<close>

lemma ToString_throws_TypeError:
  shows "ToString v = Inl e \<Longrightarrow> e = TypeError"
    and "join_elements xs = Inl e \<Longrightarrow> e = TypeError"
proof (induct v and xs rule: ToString_join_elements.induct)
  case (9 x xs)
  then show ?case by (auto split: sum.splits if_splits)
qed (auto split: if_splits)

lemma validators_throw_TypeError:
  "validateISBN v = Inl e \<Longrightarrow> e = TypeError"
  "validatePrice v = Inl e \<Longrightarrow> e = TypeError"
  "validateStock v = Inl e \<Longrightarrow> e = TypeError"
proof -
  show "validateISBN v = Inl e \<Longrightarrow> e = TypeError" by (cases v) simp_all
  show "validatePrice v = Inl e \<Longrightarrow> e = TypeError"
    using ToString_throws_TypeError(1) [of v e]
    by (auto simp: validatePrice_def parseFloat_def split: sum.splits)
  show "validateStock v = Inl e \<Longrightarrow> e = TypeError"
    using ToString_throws_TypeError(1) [of v e]
    by (auto simp: validateStock_def parseInt_def split: sum.splits)
qed

lemma parseInt_JStr: "parseInt (JStr s) = Inr (parseInt_of s)"
  by (simp add: parseInt_def parseInt_of_def)

lemma query_update_zero: "query_update d t a i p s ident = Inr (0, d') \<Longrightarrow> d' = d"
  by (auto simp: query_update_def list_ex_iff filter_empty_conv split: if_splits)

lemma query_delete_zero: "query_delete d ident = Inr (0, d') \<Longrightarrow> d' = d"
  by (auto simp: query_delete_def filter_empty_conv filter_id_conv split: if_splits)

lemma post_books_by_validation:
  "post_books b w =
     (case post_validation b of
        Thrown \<Rightarrow> (json 500 (BError ''Failed to create book''), w)
      | Rejected m \<Rightarrow> (json 400 (BError m), w)
      | Passed \<Rightarrow>
         (case insert_of b (db w) of
            Inl error \<Rightarrow>
              if error = ER_DUP_ENTRY
              then (json 409 (BError ''Book with this ISBN already exists''), w)
              else (json 500 (BError ''Failed to create book''), w)
          | Inr (insertId, d') \<Rightarrow>
              (json 201 (BWritten (Fin (of_int insertId)) (field b ''title'') (field b ''author'')
                           (field b ''isbn'') (field b ''price'') (field b ''stock'')
                           ''Book created successfully''),
               \<lparr>db = d', redis = invalidateCache (redis w)\<rparr>)))"
proof -
  define iv where "iv = (if truthy (field b ''isbn'') then validateISBN (field b ''isbn'') else Inr True)"
  define pv where "pv = (if field b ''price'' \<noteq> JUndefined then validatePrice (field b ''price'') else Inr True)"
  define sv where "sv = (if field b ''stock'' \<noteq> JUndefined then validateStock (field b ''stock'') else Inr True)"
  note defs = post_books_def post_validation_def insert_of_def Let_def json_def
    iv_def [symmetric] pv_def [symmetric] sv_def [symmetric]
  show ?thesis
  proof (cases "\<not> truthy (field b ''title'') \<or> \<not> truthy (field b ''author'') \<or> \<not> truthy (field b ''isbn'')")
    case True
    then show ?thesis by (simp add: defs split del: if_split)
  next
    case nt: False
    then have ivv: "iv = validateISBN (field b ''isbn'')" by (simp add: iv_def)
    show ?thesis
    proof (cases iv)
      case (Inl e)
      with nt validators_throw_TypeError(1) [of "field b ''isbn''" e] show ?thesis
        by (simp add: defs ivv [symmetric] split del: if_split)
    next
      case i: (Inr ok)
      show ?thesis
      proof (cases ok)
        case False
        with nt i show ?thesis by (simp add: defs ivv [symmetric] split del: if_split)
      next
        case True
        with i have iT: "iv = Inr True" by simp
        note pre = nt iT
        note defs = defs ivv [symmetric]
        have pe: "pv = Inl e \<Longrightarrow> e = TypeError" for e
          using validators_throw_TypeError(2) by (auto simp: pv_def split: if_splits)
        have se: "sv = Inl e \<Longrightarrow> e = TypeError" for e
          using validators_throw_TypeError(3) by (auto simp: sv_def split: if_splits)
        show ?thesis
        proof (cases pv)
          case (Inl e)
          with pre pe [OF Inl] show ?thesis by (simp add: defs split del: if_split)
        next
          case p: (Inr pok)
          show ?thesis
          proof (cases pok)
            case False
            with pre p show ?thesis by (simp add: defs split del: if_split)
          next
            case True
            with p have pT: "pv = Inr True" by simp
            show ?thesis
            proof (cases sv)
              case (Inl e)
              with pre pT se [OF Inl] show ?thesis by (simp add: defs split del: if_split)
            next
              case s: (Inr sok)
              show ?thesis
              proof (cases sok)
                case False
                with pre pT s show ?thesis by (simp add: defs split del: if_split)
              next
                case True
                with pre pT s show ?thesis
                  by (simp add: defs split: sum.splits prod.splits split del: if_split cong: if_cong)
              qed
            qed
          qed
        qed
      qed
    qed
  qed
qed

lemma put_book_by_validation:
  "put_book ident b w =
     (case put_validation b of
        Thrown \<Rightarrow> (json 500 (BError ''Failed to update book''), w)
      | Rejected m \<Rightarrow> (json 400 (BError m), w)
      | Passed \<Rightarrow>
         (case update_of ident b (db w) of
            Inl error \<Rightarrow> (json 500 (BError ''Failed to update book''), w)
          | Inr (affectedRows, d') \<Rightarrow>
              if affectedRows = 0
              then (json 404 (BError ''Book not found''), \<lparr>db = d', redis = redis w\<rparr>)
              else (json 200 (BWritten (parseInt_of ident) (field b ''title'') (field b ''author'')
                                (field b ''isbn'') (field b ''price'') (field b ''stock'')
                                ''Book updated successfully''),
                    \<lparr>db = d', redis = invalidateCache (redis w)\<rparr>)))"
proof -
  define iv where "iv = (if truthy (field b ''isbn'') then validateISBN (field b ''isbn'') else Inr True)"
  define pv where "pv = (if field b ''price'' \<noteq> JUndefined then validatePrice (field b ''price'') else Inr True)"
  define sv where "sv = (if field b ''stock'' \<noteq> JUndefined then validateStock (field b ''stock'') else Inr True)"
  note defs = put_book_def put_validation_def update_of_def parseInt_JStr Let_def json_def
    iv_def [symmetric] pv_def [symmetric] sv_def [symmetric]
  show ?thesis
  proof (cases iv)
    case (Inl e)
    then show ?thesis by (simp add: defs split del: if_split)
  next
    case i: (Inr ok)
    show ?thesis
    proof (cases ok)
      case False
      with i show ?thesis by (simp add: defs split del: if_split)
    next
      case True
      with i have iT: "iv = Inr True" by simp
      note pre = iT
      have pe: "pv = Inl e \<Longrightarrow> e = TypeError" for e
        using validators_throw_TypeError(2) by (auto simp: pv_def split: if_splits)
      have se: "sv = Inl e \<Longrightarrow> e = TypeError" for e
        using validators_throw_TypeError(3) by (auto simp: sv_def split: if_splits)
      show ?thesis
      proof (cases pv)
        case (Inl e)
        with pre pe [OF Inl] show ?thesis by (simp add: defs split del: if_split)
      next
        case p: (Inr pok)
        show ?thesis
        proof (cases pok)
          case False
          with pre p show ?thesis by (simp add: defs split del: if_split)
        next
          case True
          with p have pT: "pv = Inr True" by simp
          show ?thesis
          proof (cases sv)
            case (Inl e)
            with pre pT se [OF Inl] show ?thesis by (simp add: defs split del: if_split)
          next
            case s: (Inr sok)
            show ?thesis
            proof (cases sok)
              case False
              with pre pT s show ?thesis by (simp add: defs split del: if_split)
            next
              case True
              with pre pT s show ?thesis
                by (simp add: defs split: sum.splits prod.splits split del: if_split cong: if_cong)
            qed
          qed
        qed
      qed
    qed
  qed
qed

lemma post_validation_Passed:
  "post_validation b = Passed \<Longrightarrow>
     truthy (field b ''title'') \<and> truthy (field b ''author'') \<and> truthy (field b ''isbn'')
     \<and> validateISBN (field b ''isbn'') = Inr True
     \<and> (field b ''price'' \<noteq> JUndefined \<longrightarrow> validatePrice (field b ''price'') = Inr True)
     \<and> (field b ''stock'' \<noteq> JUndefined \<longrightarrow> validateStock (field b ''stock'') = Inr True)"
  by (auto simp: post_validation_def split: if_splits sum.splits bool.splits)

lemma put_validation_Passed:
  "put_validation b = Passed \<Longrightarrow>
     (truthy (field b ''isbn'') \<longrightarrow> validateISBN (field b ''isbn'') = Inr True)
     \<and> (field b ''price'' \<noteq> JUndefined \<longrightarrow> validatePrice (field b ''price'') = Inr True)
     \<and> (field b ''stock'' \<noteq> JUndefined \<longrightarrow> validateStock (field b ''stock'') = Inr True)"
  by (auto simp: put_validation_def split: if_splits sum.splits bool.splits)

lemma world1_reached: "snd (post_books body_T world0) = world1"
  by code_simp

lemma world2_reached: "snd (post_books body_U world1) = world2"
  by code_simp

lemma post_books_status_201:
  "status (fst (post_books b w)) = 201 \<Longrightarrow>
     post_validation b = Passed \<and> (\<exists>insertId d'. insert_of b (db w) = Inr (insertId, d'))"
  by (auto simp: post_books_by_validation json_def split: verdict.splits sum.splits if_splits)

lemma put_book_status_200:
  "status (fst (put_book ident b w)) = 200 \<Longrightarrow>
     put_validation b = Passed
     \<and> (\<exists>n d'. update_of ident b (db w) = Inr (n, d') \<and> n \<noteq> 0)"
  by (auto simp: put_book_by_validation json_def split: verdict.splits sum.splits if_splits)

lemma unsuccessful_write_changes_nothing:
  "(status (fst (post_books b w)) \<noteq> 201 \<longrightarrow> snd (post_books b w) = w)
   \<and> (status (fst (put_book ident b w)) \<noteq> 200 \<longrightarrow> snd (put_book ident b w) = w)
   \<and> (status (fst (delete_book ident w)) \<noteq> 200 \<longrightarrow> snd (delete_book ident w) = w)"
proof (intro conjI impI)
  assume "status (fst (post_books b w)) \<noteq> 201"
  then show "snd (post_books b w) = w"
    by (auto simp: post_books_by_validation json_def split: verdict.splits sum.splits if_splits)
next
  assume "status (fst (put_book ident b w)) \<noteq> 200"
  then show "snd (put_book ident b w) = w"
    by (auto simp: put_book_by_validation update_of_def json_def dest!: query_update_zero
        split: verdict.splits sum.splits if_splits)
next
  assume "status (fst (delete_book ident w)) \<noteq> 200"
  then show "snd (delete_book ident w) = w"
    by (auto simp: delete_book_def json_def dest!: query_delete_zero
        split: sum.splits if_splits)
qed

text \<open>
  Claim C7. When the statement of a create, an update or a delete fails in the store,
  the handler leaves the cache (and the store) as they were: a rejected query reaches
  the \<^verbatim>\<open>catch\<close> block, and an update or delete that matches no row is answered
  with 404, each before \<^verbatim>\<open>invalidateCache\<close> is called. The error itself is not
  always returned as it is. A create answers a duplicate isbn with 409 and any other
  error with 500; an update answers every rejected query with the one response
  500 \<^verbatim>\<open>Failed to update book\<close>, so a duplicate isbn on update (a Conflict) gets
  the response of a connection error.
\<close>

theorem failed_write_response_and_cache:
  "(post_validation b = Passed \<and> insert_of b (db w) = Inl e \<longrightarrow>
      post_books b w =
        (if e = ER_DUP_ENTRY then json 409 (BError ''Book with this ISBN already exists'')
         else json 500 (BError ''Failed to create book''), w))
   \<and> (put_validation b = Passed \<and> update_of ident b (db w) = Inl e \<longrightarrow>
      put_book ident b w = (json 500 (BError ''Failed to update book''), w))
   \<and> (put_validation b = Passed \<and> update_of ident b (db w) = Inr (0, d') \<longrightarrow>
      put_book ident b w = (json 404 (BError ''Book not found''), w))
   \<and> (query_delete (db w) ident = Inl e \<longrightarrow>
      delete_book ident w = (json 500 (BError ''Failed to delete book''), w))
   \<and> (query_delete (db w) ident = Inr (0, d') \<longrightarrow>
      delete_book ident w = (json 404 (BError ''Book not found''), w))"
proof (intro conjI impI)
  assume "post_validation b = Passed \<and> insert_of b (db w) = Inl e"
  then show "post_books b w =
        (if e = ER_DUP_ENTRY then json 409 (BError ''Book with this ISBN already exists'')
         else json 500 (BError ''Failed to create book''), w)"
    by (simp add: post_books_by_validation)
next
  assume "put_validation b = Passed \<and> update_of ident b (db w) = Inl e"
  then show "put_book ident b w = (json 500 (BError ''Failed to update book''), w)"
    by (simp add: put_book_by_validation)
next
  assume a: "put_validation b = Passed \<and> update_of ident b (db w) = Inr (0, d')"
  then have "d' = db w" by (auto simp: update_of_def dest: query_update_zero)
  with a show "put_book ident b w = (json 404 (BError ''Book not found''), w)"
    by (simp add: put_book_by_validation)
next
  assume "query_delete (db w) ident = Inl e"
  then show "delete_book ident w = (json 500 (BError ''Failed to delete book''), w)"
    by (simp add: delete_book_def)
next
  assume a: "query_delete (db w) ident = Inr (0, d')"
  then have "d' = db w" by (rule query_delete_zero)
  with a show "delete_book ident w = (json 404 (BError ''Book not found''), w)"
    by (simp add: delete_book_def)
qed

theorem failed_write_response_and_cache_witness:
  "post_validation body_T = Passed \<and> put_validation body_T = Passed
   \<and> insert_of body_T (db world2) = Inl ER_DUP_ENTRY
   \<and> post_books body_T world2 = (json 409 (BError ''Book with this ISBN already exists''), world2)
   \<and> insert_of body_T (db world2_down) = Inl ECONNREFUSED
   \<and> post_books body_T world2_down = (json 500 (BError ''Failed to create book''), world2_down)
   \<and> update_of (str ''2'') body_T (db world2) = Inl ER_DUP_ENTRY
   \<and> put_book (str ''2'') body_T world2 = (json 500 (BError ''Failed to update book''), world2)
   \<and> update_of (str ''2'') body_T (db world2_down) = Inl ECONNREFUSED
   \<and> put_book (str ''2'') body_T world2_down
         = (json 500 (BError ''Failed to update book''), world2_down)
   \<and> update_of (str ''9'') body_T (db world2) = Inr (0, db world2)
   \<and> put_book (str ''9'') body_T world2 = (json 404 (BError ''Book not found''), world2)
   \<and> query_delete (db world2_down) (str ''1'') = Inl ECONNREFUSED
   \<and> delete_book (str ''1'') world2_down = (json 500 (BError ''Failed to delete book''), world2_down)
   \<and> query_delete (db world2) (str ''9'') = Inr (0, db world2)
   \<and> delete_book (str ''9'') world2 = (json 404 (BError ''Book not found''), world2)"
proof -
  have v1: "post_validation body_T = Passed" by code_simp
  have v2: "put_validation body_T = Passed" by code_simp
  have i1: "insert_of body_T (db world2) = Inl ER_DUP_ENTRY" by code_simp
  have i2: "insert_of body_T (db world2_down) = Inl ECONNREFUSED" by code_simp
  have u1: "update_of (str ''2'') body_T (db world2) = Inl ER_DUP_ENTRY" by code_simp
  have u2: "update_of (str ''9'') body_T (db world2) = Inr (0, db world2)" by code_simp
  have u3: "update_of (str ''2'') body_T (db world2_down) = Inl ECONNREFUSED" by code_simp
  have d1: "query_delete (db world2_down) (str ''1'') = Inl ECONNREFUSED" by code_simp
  have d2: "query_delete (db world2) (str ''9'') = Inr (0, db world2)" by code_simp
  note t = failed_write_response_and_cache
  have r1: "post_books body_T world2 = (json 409 (BError ''Book with this ISBN already exists''), world2)"
    using t [of body_T world2 ER_DUP_ENTRY] v1 i1 by simp
  have r2: "post_books body_T world2_down = (json 500 (BError ''Failed to create book''), world2_down)"
    using t [of body_T world2_down ECONNREFUSED] v1 i2 by simp
  have r3: "put_book (str ''2'') body_T world2 = (json 500 (BError ''Failed to update book''), world2)"
    using t [of body_T world2 ER_DUP_ENTRY "str ''2''"] v2 u1 by simp
  have r7: "put_book (str ''2'') body_T world2_down
              = (json 500 (BError ''Failed to update book''), world2_down)"
    using t [of body_T world2_down ECONNREFUSED "str ''2''"] v2 u3 by simp
  have r4: "put_book (str ''9'') body_T world2 = (json 404 (BError ''Book not found''), world2)"
    using t [of body_T world2 _ "str ''9''" "db world2"] v2 u2 by simp
  have r5: "delete_book (str ''1'') world2_down = (json 500 (BError ''Failed to delete book''), world2_down)"
    using t [of _ world2_down ECONNREFUSED "str ''1''"] d1 by simp
  have r6: "delete_book (str ''9'') world2 = (json 404 (BError ''Book not found''), world2)"
    using t [of _ world2 _ "str ''9''" "db world2"] d2 by simp
  from v1 v2 i1 i2 u1 u2 u3 d1 d2 r1 r2 r3 r4 r5 r6 r7 show ?thesis by blast
qed

text \<open>
  Claim C9. A create that violates the uniqueness of isbn is answered with 409, the
  Conflict response. An update that violates it is not: the \<^verbatim>\<open>catch\<close> block of the
  update handler does not look at the error code, so the response is the generic
  500 that a connection error also gets, and the two cannot be told apart.
\<close>

theorem update_conflict_is_generic_failure:
  "(post_validation b = Passed \<and> insert_of b (db w) = Inl ER_DUP_ENTRY \<longrightarrow>
      fst (post_books b w) = json 409 (BError ''Book with this ISBN already exists''))
   \<and> (put_validation b = Passed \<and> update_of ident b (db w) = Inl ER_DUP_ENTRY
       \<and> update_of ident b (db w') = Inl ECONNREFUSED \<longrightarrow>
      fst (put_book ident b w) = json 500 (BError ''Failed to update book'')
      \<and> fst (put_book ident b w) = fst (put_book ident b w'))"
  by (simp add: post_books_by_validation put_book_by_validation)

theorem update_conflict_is_generic_failure_witness:
  "post_validation body_T = Passed \<and> insert_of body_T (db world2) = Inl ER_DUP_ENTRY
   \<and> fst (post_books body_T world2) = json 409 (BError ''Book with this ISBN already exists'')
   \<and> put_validation body_T = Passed
   \<and> update_of (str ''2'') body_T (db world2) = Inl ER_DUP_ENTRY
   \<and> update_of (str ''2'') body_T (db world2_down) = Inl ECONNREFUSED
   \<and> fst (put_book (str ''2'') body_T world2) = json 500 (BError ''Failed to update book'')
   \<and> fst (put_book (str ''2'') body_T world2) = fst (put_book (str ''2'') body_T world2_down)"
proof -
  have v1: "post_validation body_T = Passed" by code_simp
  have v2: "put_validation body_T = Passed" by code_simp
  have i1: "insert_of body_T (db world2) = Inl ER_DUP_ENTRY" by code_simp
  have u1: "update_of (str ''2'') body_T (db world2) = Inl ER_DUP_ENTRY" by code_simp
  have u2: "update_of (str ''2'') body_T (db world2_down) = Inl ECONNREFUSED" by code_simp
  from update_conflict_is_generic_failure [of body_T world2 "str ''2''" world2_down]
    v1 v2 i1 u1 u2
  have "fst (post_books body_T world2) = json 409 (BError ''Book with this ISBN already exists'')
    \<and> fst (put_book (str ''2'') body_T world2) = json 500 (BError ''Failed to update book'')
    \<and> fst (put_book (str ''2'') body_T world2) = fst (put_book (str ''2'') body_T world2_down)"
    by blast
  with v1 v2 i1 u1 u2 show ?thesis by blast
qed

text \<open>
  Claim C10. A create that succeeds adds one row; the row's price and stock are
  \<^verbatim>\<open>price || 0\<close> and \<^verbatim>\<open>stock || 0\<close>, so 0 for an omitted field, while the
  response carries the submitted \<^verbatim>\<open>price\<close> and \<^verbatim>\<open>stock\<close>, so nothing for an
  omitted field: the response and the stored row disagree on a defaulted field.
\<close>

theorem create_stores_default_but_echoes_submitted:
  "status (fst (post_books b w)) = 201 \<Longrightarrow>
     \<exists>r. books (db (snd (post_books b w))) = r # books (db w)
       \<and> body (fst (post_books b w)) =
           BWritten (Fin (of_int (book_id r))) (title r) (author r) (isbn r)
             (field b ''price'') (field b ''stock'') ''Book created successfully''
       \<and> (field b ''price'' = JUndefined \<longrightarrow> price r = JNum (str ''0''))
       \<and> (field b ''stock'' = JUndefined \<longrightarrow> stock r = JNum (str ''0''))"
proof -
  assume s: "status (fst (post_books b w)) = 201"
  from post_books_status_201 [OF s] obtain insertId d'
    where v: "post_validation b = Passed" and i: "insert_of b (db w) = Inr (insertId, d')"
    by blast
  from i have d': "d' = (db w)\<lparr>books := \<lparr>book_id = next_id (db w), title = field b ''title'',
        author = field b ''author'', isbn = field b ''isbn'',
        price = js_or (field b ''price'') (JNum (str ''0'')),
        stock = js_or (field b ''stock'') (JNum (str ''0''))\<rparr> # books (db w),
        next_id := next_id (db w) + 1\<rparr>" and n: "insertId = next_id (db w)"
    by (auto simp: insert_of_def query_insert_def split: if_splits)
  show ?thesis
    using v i by (simp add: post_books_by_validation d' n json_def js_or_def truthy_def)
qed

theorem create_stores_default_but_echoes_submitted_witness:
  "status (fst (post_books body_T world0)) = 201
   \<and> field body_T ''price'' = JUndefined \<and> field body_T ''stock'' = JUndefined
   \<and> (\<exists>r. books (db (snd (post_books body_T world0))) = r # books (db world0)
       \<and> body (fst (post_books body_T world0)) =
           BWritten (Fin (of_int (book_id r))) (title r) (author r) (isbn r)
             JUndefined JUndefined ''Book created successfully''
       \<and> price r = JNum (str ''0'') \<and> stock r = JNum (str ''0''))"
proof -
  have s: "status (fst (post_books body_T world0)) = 201" by code_simp
  have p: "field body_T ''price'' = JUndefined" by code_simp
  have q: "field body_T ''stock'' = JUndefined" by code_simp
  from create_stores_default_but_echoes_submitted [OF s] p q s show ?thesis by simp
qed

text \<open>
  Claim C3. What a successful write stores is the submitted value, not the number the
  validator looked at. An update whose body has no price and no stock is not
  validated for them and overwrites both columns with the missing value (SQL
  \<^verbatim>\<open>NULL\<close>); a create stores \<^verbatim>\<open>stock || 0\<close>, which \<^verbatim>\<open>validateStock\<close> accepted
  through \<^verbatim>\<open>parseInt\<close>, so a stock of 100000.9 is accepted as 100000 and stored as
  100000.9.
\<close>

theorem successful_write_stores_submitted_value:
  "(status (fst (put_book ident b w)) = 200 \<longrightarrow>
      list_ex (id_matches ident) (books (db (snd (put_book ident b w))))
      \<and> list_all (\<lambda>r. id_matches ident r \<longrightarrow>
                     price r = field b ''price'' \<and> stock r = field b ''stock'')
          (books (db (snd (put_book ident b w)))))
   \<and> (status (fst (post_books b w)) = 201 \<longrightarrow>
      (\<exists>r. books (db (snd (post_books b w))) = r # books (db w)
         \<and> price r = js_or (field b ''price'') (JNum (str ''0''))
         \<and> stock r = js_or (field b ''stock'') (JNum (str ''0''))))"
proof (intro conjI impI)
  assume s: "status (fst (put_book ident b w)) = 200"
  from put_book_status_200 [OF s] obtain n d'
    where v: "put_validation b = Passed" and u: "update_of ident b (db w) = Inr (n, d')"
      and n: "n \<noteq> 0"
    by blast
  from u n have ex: "list_ex (id_matches ident) (books (db w))"
    and d': "d' = (db w)\<lparr>books := map (\<lambda>r. if id_matches ident r
                                    then r\<lparr>title := field b ''title'', author := field b ''author'',
                                           isbn := field b ''isbn'', price := field b ''price'',
                                           stock := field b ''stock''\<rparr>
                                    else r) (books (db w))\<rparr>"
    by (auto simp: update_of_def query_update_def split: if_splits)
  have w': "db (snd (put_book ident b w)) = d'"
    using v u n by (simp add: put_book_by_validation)
  have m: "id_matches ident (r\<lparr>title := t, author := a, isbn := i, price := p, stock := q\<rparr>)
             = id_matches ident r" for r t a i p q
    by (simp add: id_matches_def)
  from ex obtain r0 where r0: "r0 \<in> set (books (db w))" "id_matches ident r0"
    by (auto simp: list_ex_iff)
  let ?f = "\<lambda>r. if id_matches ident r
                 then r\<lparr>title := field b ''title'', author := field b ''author'',
                        isbn := field b ''isbn'', price := field b ''price'',
                        stock := field b ''stock''\<rparr>
                 else r"
  from r0(1) have "?f r0 \<in> ?f ` set (books (db w))" by (rule imageI)
  then have "?f r0 \<in> set (map ?f (books (db w)))" by (simp only: set_map)
  moreover from r0 have "id_matches ident (?f r0)" by (simp add: m)
  ultimately have "list_ex (id_matches ident) (map ?f (books (db w)))"
    unfolding list_ex_iff by blast
  then show "list_ex (id_matches ident) (books (db (snd (put_book ident b w))))"
    unfolding w' d' by simp
  show "list_all (\<lambda>r. id_matches ident r \<longrightarrow>
                     price r = field b ''price'' \<and> stock r = field b ''stock'')
          (books (db (snd (put_book ident b w))))"
    unfolding w' d' by (auto simp: list_all_iff)
next
  assume s: "status (fst (post_books b w)) = 201"
  from post_books_status_201 [OF s] obtain insertId d'
    where v: "post_validation b = Passed" and i: "insert_of b (db w) = Inr (insertId, d')"
    by blast
  from i have d': "d' = (db w)\<lparr>books := \<lparr>book_id = next_id (db w), title = field b ''title'',
        author = field b ''author'', isbn = field b ''isbn'',
        price = js_or (field b ''price'') (JNum (str ''0'')),
        stock = js_or (field b ''stock'') (JNum (str ''0''))\<rparr> # books (db w),
        next_id := next_id (db w) + 1\<rparr>"
    by (auto simp: insert_of_def query_insert_def split: if_splits)
  show "\<exists>r. books (db (snd (post_books b w))) = r # books (db w)
         \<and> price r = js_or (field b ''price'') (JNum (str ''0''))
         \<and> stock r = js_or (field b ''stock'') (JNum (str ''0''))"
    using v i by (simp add: post_books_by_validation d')
qed

theorem successful_write_stores_submitted_value_witness:
  "status (fst (put_book (str ''1'') body_T world1)) = 200
   \<and> books (db (snd (put_book (str ''1'') body_T world1)))
       = [row_T\<lparr>price := JUndefined, stock := JUndefined\<rparr>]
   \<and> status (fst (post_books body_V world1)) = 201
   \<and> validateStock (JNum (str ''100000.9'')) = Inr True
   \<and> parseInt (JNum (str ''100000.9'')) = Inr (Fin 100000)
   \<and> parseFloat (JNum (str ''100000.9'')) = Inr (Fin (3436004760564531 / 34359738368))
   \<and> (100000 :: rat) < 3436004760564531 / 34359738368
   \<and> (\<exists>r. books (db (snd (post_books body_V world1))) = r # books (db world1)
          \<and> price r = JNum (str ''0'') \<and> stock r = JNum (str ''100000.9''))"
proof -
  have s1: "status (fst (put_book (str ''1'') body_T world1)) = 200" by code_simp
  have b1: "books (db (snd (put_book (str ''1'') body_T world1)))
       = [row_T\<lparr>price := JUndefined, stock := JUndefined\<rparr>]" by code_simp
  have s2: "status (fst (post_books body_V world1)) = 201" by code_simp
  have v: "validateStock (JNum (str ''100000.9'')) = Inr True" by code_simp
  have p: "parseInt (JNum (str ''100000.9'')) = Inr (Fin 100000)
    \<and> parseFloat (JNum (str ''100000.9'')) = Inr (Fin (3436004760564531 / 34359738368))
    \<and> (100000 :: rat) < 3436004760564531 / 34359738368" by code_simp
  have f: "js_or (field body_V ''price'') (JNum (str ''0'')) = JNum (str ''0'')
           \<and> js_or (field body_V ''stock'') (JNum (str ''0'')) = JNum (str ''100000.9'')"
    by code_simp
  from successful_write_stores_submitted_value [of "str ''1''" body_V world1] s2
  obtain r where "books (db (snd (post_books body_V world1))) = r # books (db world1)"
    and "price r = js_or (field body_V ''price'') (JNum (str ''0''))"
    and "stock r = js_or (field body_V ''stock'') (JNum (str ''0''))"
    by blast
  with f have "\<exists>r. books (db (snd (post_books body_V world1))) = r # books (db world1)
          \<and> price r = JNum (str ''0'') \<and> stock r = JNum (str ''100000.9'')"
    by auto
  moreover
  from successful_write_stores_submitted_value [of "str ''1''" body_T world1] s1
  have "list_all (\<lambda>r. id_matches (str ''1'') r \<longrightarrow>
                     price r = field body_T ''price'' \<and> stock r = field body_T ''stock'')
          (books (db (snd (put_book (str ''1'') body_T world1))))"
    by blast
  ultimately show ?thesis using s1 b1 s2 v p by blast
qed

text \<open>What a cache whose entries agree with the store returns.\<close>

lemma coherent_entry:
  "coherent d c \<Longrightarrow> getFromCache key c = Some v \<Longrightarrow> \<exists>ttl. entry_agrees d (key, ttl, v)"
proof -
  assume c: "coherent d c" and g: "getFromCache key c = Some v"
  from g obtain ttl where "map_of (entries c) key = Some (ttl, v)"
    by (auto simp: getFromCache_def split: if_splits)
  then have "(key, ttl, v) \<in> set (entries c)" by (rule map_of_SomeD)
  with c show ?thesis by (auto simp: coherent_def list_all_iff)
qed

lemma books_key: "glob_books (str ''books:'' @ ident) \<and> drop 6 (str ''books:'' @ ident) = ident"
  by (simp add: glob_books_def str_def)

lemma books_all_key: "glob_books (str ''books:all'') \<and> drop 6 (str ''books:all'') = str ''all''"
  by (simp add: glob_books_def str_def)

lemma coherent_all:
  "coherent d c \<Longrightarrow> getFromCache (str ''books:all'') c = Some v \<Longrightarrow> v = CRows (books d)"
  using coherent_entry [of d c "str ''books:all''" v] books_all_key
  by (auto simp: entry_agrees_def)

lemma coherent_one:
  "coherent d c \<Longrightarrow> getFromCache (str ''books:'' @ ident) c = Some v \<Longrightarrow> ident \<noteq> str ''all''
     \<Longrightarrow> \<exists>row rest. filter (id_matches ident) (books d) = row # rest \<and> v = CRow row"
  using coherent_entry [of d c "str ''books:'' @ ident" v] books_key [of ident]
  by (auto simp: entry_agrees_def split: list.splits)

lemma disconnected_get: "getFromCache key (redis (disconnect w)) = None"
  by (simp add: disconnect_def getFromCache_def)

lemma disconnect_db: "db (disconnect w) = db w"
  by (simp add: disconnect_def)

text \<open>
  Claim C8, as the code has it. For an id with no row in the store, when the store can
  be reached and the cache returns nothing for the key of that id, Read-one answers
  404 and changes nothing: no entry is put under the key.
\<close>

theorem get_book_not_found:
  "query_select_by_id (db w) ident = Inr [] \<Longrightarrow>
   getFromCache (str ''books:'' @ ident) (redis w) = None \<Longrightarrow>
     get_book ident w = (json 404 (BError ''Book not found''), w)
     \<and> getFromCache (str ''books:'' @ ident) (redis (snd (get_book ident w))) = None"
  by (simp add: get_book_def)

theorem get_book_not_found_witness:
  "query_select_by_id (db world1) (str ''9'') = Inr []
   \<and> getFromCache (str ''books:'' @ str ''9'') (redis world1) = None
   \<and> get_book (str ''9'') world1 = (json 404 (BError ''Book not found''), world1)
   \<and> getFromCache (str ''books:'' @ str ''9'') (redis (snd (get_book (str ''9'') world1))) = None"
proof -
  have q: "query_select_by_id (db world1) (str ''9'') = Inr []" by code_simp
  have g: "getFromCache (str ''books:'' @ str ''9'') (redis world1) = None" by code_simp
  from get_book_not_found [OF q g] q g show ?thesis by blast
qed

text \<open>
  The claim as worded fails in two ways. The key of the id \<^verbatim>\<open>all\<close> is the key of
  the collection: after a Read-all, Read-one of \<^verbatim>\<open>all\<close>, an id with no row, is
  answered 200 from the cache. And an invalidation that fails is swallowed: a book
  that was read and then deleted during a cache outage has no row, yet once the
  outage is over Read-one answers 200 with the stale entry, which is still under the
  key afterwards.
\<close>

theorem get_book_stale_hit_counterexample:
  "query_select_by_id (db world1_listed) (str ''all'') = Inr []
   \<and> fst (get_book (str ''all'') world1_listed) = json 200 (BFromCache (CRows [row_T]))
   \<and> fst (delete_book (str ''1'') world1_outage) = json 200 (BMessage ''Book deleted successfully'')
   \<and> query_select_by_id (db world1_recovered) (str ''1'') = Inr []
   \<and> fst (get_book (str ''1'') world1_recovered) = json 200 (BFromCache (CRow row_T))
   \<and> getFromCache (str ''books:1'') (redis (snd (get_book (str ''1'') world1_recovered)))
       = Some (CRow row_T)"
  by code_simp

lemma get_book_not_found_coherent:
  "coherent (db w) (redis w) \<Longrightarrow> ident \<noteq> str ''all'' \<Longrightarrow>
   query_select_by_id (db w) ident = Inr [] \<Longrightarrow>
     get_book ident w = (json 404 (BError ''Book not found''), w)"
proof -
  assume c: "coherent (db w) (redis w)" and i: "ident \<noteq> str ''all''"
    and q: "query_select_by_id (db w) ident = Inr []"
  have "getFromCache (str ''books:'' @ ident) (redis w) = None"
  proof (cases "getFromCache (str ''books:'' @ ident) (redis w)")
    case None
    then show ?thesis .
  next
    case (Some v)
    from coherent_one [OF c Some i] q show ?thesis
      by (auto simp: query_select_by_id_def split: if_splits)
  qed
  with q show ?thesis by (simp add: get_book_def)
qed

text \<open>
  Claim C1, as the code has it. A create, an update and a delete give the same
  response and leave the same store with the Cache Gateway disconnected as with the
  cache enabled, whatever the cache holds. When the store can be reached and the
  entries of the cache agree with it, Read-all gives the same response, and Read-one
  of an id other than \<^verbatim>\<open>all\<close> gives the same status and the same object, except
  that a cache hit adds the property \<^verbatim>\<open>fromCache: true\<close> to the object.
\<close>

theorem cache_transparency_up_to_fromCache:
  "fst (post_books b (disconnect w)) = fst (post_books b w)
   \<and> db (snd (post_books b (disconnect w))) = db (snd (post_books b w))
   \<and> fst (put_book ident b (disconnect w)) = fst (put_book ident b w)
   \<and> db (snd (put_book ident b (disconnect w))) = db (snd (put_book ident b w))
   \<and> fst (delete_book ident (disconnect w)) = fst (delete_book ident w)
   \<and> db (snd (delete_book ident (disconnect w))) = db (snd (delete_book ident w))
   \<and> (coherent (db w) (redis w) \<and> reachable (db w) \<longrightarrow>
        fst (get_books (disconnect w)) = fst (get_books w)
        \<and> (ident \<noteq> str ''all'' \<longrightarrow>
             fst (get_book ident (disconnect w)) = without_fromCache (fst (get_book ident w))))"
proof -
  have post: "fst (post_books b (disconnect w)) = fst (post_books b w)
      \<and> db (snd (post_books b (disconnect w))) = db (snd (post_books b w))"
    by (simp add: post_books_by_validation disconnect_db
        split: verdict.splits sum.splits prod.splits)
  have put: "fst (put_book ident b (disconnect w)) = fst (put_book ident b w)
      \<and> db (snd (put_book ident b (disconnect w))) = db (snd (put_book ident b w))"
    by (simp add: put_book_by_validation disconnect_db
        split: verdict.splits sum.splits prod.splits)
  have del: "fst (delete_book ident (disconnect w)) = fst (delete_book ident w)
      \<and> db (snd (delete_book ident (disconnect w))) = db (snd (delete_book ident w))"
    by (simp add: delete_book_def disconnect_db split: sum.splits prod.splits)
  have reads: "fst (get_books (disconnect w)) = fst (get_books w)
        \<and> (ident \<noteq> str ''all'' \<longrightarrow>
             fst (get_book ident (disconnect w)) = without_fromCache (fst (get_book ident w)))"
    if c: "coherent (db w) (redis w)" and r: "reachable (db w)"
  proof (intro conjI impI)
    show "fst (get_books (disconnect w)) = fst (get_books w)"
    proof (cases "getFromCache (str ''books:all'') (redis w)")
      case None
      then show ?thesis
        by (simp add: get_books_def disconnected_get disconnect_db split: sum.splits)
    next
      case (Some v)
      from coherent_all [OF c Some] Some r show ?thesis
        by (simp add: get_books_def disconnected_get disconnect_db query_select_all_def)
    qed
  next
    assume i: "ident \<noteq> str ''all''"
    show "fst (get_book ident (disconnect w)) = without_fromCache (fst (get_book ident w))"
    proof (cases "getFromCache (str ''books:'' @ ident) (redis w)")
      case None
      then show ?thesis
        by (simp add: get_book_def disconnected_get disconnect_db without_fromCache_def json_def
            split: sum.splits list.splits)
    next
      case (Some v)
      from coherent_one [OF c Some i] obtain row rest
        where f: "filter (id_matches ident) (books (db w)) = row # rest" and v: "v = CRow row"
        by blast
      from Some r f v show ?thesis
        by (simp add: get_book_def disconnected_get disconnect_db without_fromCache_def json_def
            query_select_by_id_def)
    qed
  qed
  from post put del reads show ?thesis by blast
qed

theorem cache_transparency_up_to_fromCache_witness:
  "coherent (db world1_read) (redis world1_read) \<and> reachable (db world1_read)
   \<and> str ''1'' \<noteq> str ''all''
   \<and> fst (get_books (disconnect world1_read)) = fst (get_books world1_read)
   \<and> fst (get_book (str ''1'') world1_read) = json 200 (BFromCache (CRow row_T))
   \<and> fst (get_book (str ''1'') (disconnect world1_read)) = json 200 (BData (CRow row_T))
   \<and> fst (get_book (str ''1'') (disconnect world1_read))
       = without_fromCache (fst (get_book (str ''1'') world1_read))
   \<and> fst (post_books body_U (disconnect world1_read)) = fst (post_books body_U world1_read)
   \<and> db (snd (post_books body_U (disconnect world1_read)))
       = db (snd (post_books body_U world1_read))"
proof -
  have c: "coherent (db world1_read) (redis world1_read)" by code_simp
  have r: "reachable (db world1_read)" by code_simp
  have n: "str ''1'' \<noteq> str ''all''" by code_simp
  have h: "fst (get_book (str ''1'') world1_read) = json 200 (BFromCache (CRow row_T))"
    by code_simp
  have m: "fst (get_book (str ''1'') (disconnect world1_read)) = json 200 (BData (CRow row_T))"
    by code_simp
  from cache_transparency_up_to_fromCache [of body_U world1_read "str ''1''"] c r n h m
  show ?thesis by blast
qed

text \<open>
  The claim as worded asks for the same response body. A Read-one answered from the
  cache is not the object that a Read-one answered from the store returns (on a miss,
  or with the cache disconnected): it carries \<^verbatim>\<open>fromCache: true\<close>. The status
  differs as well when the store is out of reach (a hit is answered 200, the
  disconnected execution 500), when the entry is stale after a failed invalidation
  (200 against 404), and for the id \<^verbatim>\<open>all\<close> after a Read-all (200 against 404).
\<close>

theorem cache_hit_body_differs_counterexample:
  "fst (get_book (str ''1'') world1) = json 200 (BData (CRow row_T))
   \<and> fst (get_book (str ''1'') world1_read) = json 200 (BFromCache (CRow row_T))
   \<and> fst (get_book (str ''1'') (disconnect world1_read)) = json 200 (BData (CRow row_T))
   \<and> fst (get_book (str ''1'') world1_read) \<noteq> fst (get_book (str ''1'') (disconnect world1_read))
   \<and> fst (get_book (str ''1'') world1_read_down) = json 200 (BFromCache (CRow row_T))
   \<and> fst (get_book (str ''1'') (disconnect world1_read_down))
       = json 500 (BError ''Failed to fetch book'')
   \<and> fst (get_book (str ''1'') world1_recovered) = json 200 (BFromCache (CRow row_T))
   \<and> fst (get_book (str ''1'') (disconnect world1_recovered))
       = json 404 (BError ''Book not found'')
   \<and> fst (get_book (str ''all'') world1_listed) = json 200 (BFromCache (CRows [row_T]))
   \<and> fst (get_book (str ''all'') (disconnect world1_listed))
       = json 404 (BError ''Book not found'')"
  by code_simp

text \<open>
  Agreement of the cache with the store is kept by every handler as long as the cache
  is connected and its commands succeed: a read puts what the store returned under
  the key, and a successful write removes every key that starts with \<^verbatim>\<open>books:\<close>.
\<close>

lemma setToCache_coherent:
  "coherent d c \<Longrightarrow> entry_agrees d (key, CACHE_TTL, v) \<Longrightarrow> coherent d (setToCache key v c)"
  by (auto simp: setToCache_def coherent_def list_all_iff)

lemma ne_set_empty_help: "x \<in> set xs \<Longrightarrow> xs \<noteq> []"
  by auto

lemma invalidateCache_no_books_key:
  assumes "isOpen c" and "\<not> failing c" and e: "e \<in> set (entries (invalidateCache c))"
  shows "\<not> glob_books (fst e)"
proof
  assume g: "glob_books (fst e)"
  let ?keys = "filter glob_books (map fst (entries c))"
  from e assms(1,2) have m: "e \<in> set (entries c)"
    by (auto simp: invalidateCache_def Let_def split: if_splits)
  from m have "fst e \<in> set (map fst (entries c))" by (simp only: set_map) (rule imageI)
  with g have k: "fst e \<in> set ?keys" by simp
  then have "?keys \<noteq> []" by (rule ne_set_empty_help)
  with e assms(1,2) have "fst e \<notin> set ?keys"
    by (simp add: invalidateCache_def Let_def)
  with k show False by contradiction
qed

lemma invalidateCache_coherent:
  "isOpen c \<Longrightarrow> \<not> failing c \<Longrightarrow> coherent d (invalidateCache c)"
  unfolding coherent_def list_all_iff
proof
  fix e
  assume "isOpen c" and "\<not> failing c" and "e \<in> set (entries (invalidateCache c))"
  then have "\<not> glob_books (fst e)" by (rule invalidateCache_no_books_key)
  then show "entry_agrees d e" by (cases e) (simp add: entry_agrees_def)
qed

lemma coherent_kept:
  assumes c: "coherent (db w) (redis w)" and o: "isOpen (redis w)" and f: "\<not> failing (redis w)"
  shows "coherent (db (snd (get_books w))) (redis (snd (get_books w)))"
    and "ident \<noteq> str ''all'' \<Longrightarrow>
           coherent (db (snd (get_book ident w))) (redis (snd (get_book ident w)))"
    and "coherent (db (snd (post_books b w))) (redis (snd (post_books b w)))"
    and "coherent (db (snd (put_book ident b w))) (redis (snd (put_book ident b w)))"
    and "coherent (db (snd (delete_book ident w))) (redis (snd (delete_book ident w)))"
proof -
  have a: "entry_agrees (db w) (str ''books:all'', CACHE_TTL, CRows (books (db w)))"
    using books_all_key by (simp add: entry_agrees_def)
  show "coherent (db (snd (get_books w))) (redis (snd (get_books w)))"
    using c a
    by (auto simp: get_books_def query_select_all_def intro: setToCache_coherent
        split: option.splits if_splits)
  show "coherent (db (snd (get_book ident w))) (redis (snd (get_book ident w)))"
    if i: "ident \<noteq> str ''all''"
  proof -
    have "entry_agrees (db w) (str ''books:'' @ ident, CACHE_TTL, CRow row)"
      if "filter (id_matches ident) (books (db w)) = row # rest" for row rest
      using that i books_key [of ident] by (simp add: entry_agrees_def)
    with c show ?thesis
      by (auto simp: get_book_def Let_def query_select_by_id_def intro: setToCache_coherent
          split: option.splits if_splits list.splits)
  qed
  show "coherent (db (snd (post_books b w))) (redis (snd (post_books b w)))"
    using c invalidateCache_coherent [OF o f]
    by (auto simp: post_books_by_validation split: verdict.splits sum.splits if_splits)
  show "coherent (db (snd (put_book ident b w))) (redis (snd (put_book ident b w)))"
    using c invalidateCache_coherent [OF o f]
    by (auto simp: put_book_by_validation update_of_def dest!: query_update_zero
        split: verdict.splits sum.splits if_splits)
  show "coherent (db (snd (delete_book ident w))) (redis (snd (delete_book ident w)))"
    using c invalidateCache_coherent [OF o f]
    by (auto simp: delete_book_def dest!: query_delete_zero split: sum.splits if_splits)
qed

lemma world0_coherent: "coherent (db world0) (redis world0)"
  by (simp add: world0_def coherent_def)

end
